theory Spec2Isabelle
  imports Main "HOL-Library.Stream"
begin

section \<open>Dice rolling engine: parser, roller and roll service\<close>

text \<open>
  A shallow embedding of \<^verbatim>\<open>src/lib/dice-parser.ts\<close>, \<^verbatim>\<open>src/lib/dice-roller.ts\<close>,
  \<^verbatim>\<open>src/services/dice.service.ts\<close> and the model classes they use.

  Conventions of the embedding.
  \<^item> A JavaScript string is a \<open>string\<close>; each \<open>char\<close> stands for the UTF-16 code unit
    of the same value, so the model covers the strings over the code units 0 to 255.
  \<^item> A JavaScript number is a \<open>Number\<close>: an integer that a binary64 double represents,
    one of the two infinities, or \<open>NaN\<close>. The engine computes no fraction. What
    \<^verbatim>\<open>parseInt\<close> returns and every sum is rounded to the nearest double, ties to the even
    mantissa, and overflows to an infinity. The count and the sides of a dice group, the
    loop counter and the single rolls are \<open>int\<close>: the parser stores a count or a number
    of sides only when it lies between 1 and 10000, and the random source returns safe
    integers, so these are exact.
  \<^item> An exception is a value \<open>Inl e\<close> of a sum type; a normal return is \<open>Inr v\<close>.
  \<^item> The random source is an explicit stream of entropy that is threaded through the
    roller; each draw consumes one element.
  \<^item> The \<^verbatim>\<open>timestamp\<close> field of a roll record is the wall-clock time of construction;
    no operation reads it and it is left out of the model.
\<close>

subsection \<open>Types (\<^verbatim>\<open>src/types/index.ts\<close>, \<^verbatim>\<open>src/models\<close>, \<^verbatim>\<open>src/middleware/error-handler.ts\<close>)\<close>

datatype AdvantageMode = NONE | ADVANTAGE | DISADVANTAGE

text \<open>
  The numbers of the host language that the engine can produce. \<open>Fin n\<close> is the double
  whose value is the integer \<open>n\<close>; zero and negative zero, which are equal for \<^verbatim>\<open>==\<close> and
  for \<^verbatim>\<open><=\<close>, are both \<open>Fin 0\<close>.
\<close>

datatype Number = Fin int | PosInfinity | NegInfinity | NaN

record DiceGroup =
  count :: int
  sides :: int

record ValidationError =
  field :: string
  message :: string

record DiceExpressionModel =
  original :: string
  diceGroups :: "DiceGroup list"
  modifiers :: "Number list"
  isValid :: bool
  validationErrors :: "ValidationError list"

record RollResultModel =
  rollNotation :: string
  rolls :: "int list"
  subtotal :: Number

text \<open>
  \<^verbatim>\<open>DiceRollModel\<close> refers to itself through the optional \<^verbatim>\<open>alternateRoll\<close>, so it is a
  recursive datatype; \<open>None\<close> is \<^verbatim>\<open>undefined\<close>. The selector for the \<^verbatim>\<open>modifiers\<close> field
  is \<open>rollModifiers\<close>, the name \<open>modifiers\<close> being taken by the parsed expression.
\<close>

datatype DiceRollModel =
  DiceRollModel
    (expression: string)
    (results: "RollResultModel list")
    (rollModifiers: "Number list")
    (total: Number)
    (advantageMode: AdvantageMode)
    (alternateRoll: "DiceRollModel option")

text \<open>
  The exceptions that can leave the engine: the two application errors of the error
  handler, each with its message, and the range error and the type error of
  \<^verbatim>\<open>crypto.randomInt\<close>.
\<close>

datatype AppError =
  AppValidationError string
  | ResourceLimitError string
  | RangeError
  | TypeError

definition createInvalid :: "string \<Rightarrow> ValidationError list \<Rightarrow> DiceExpressionModel" where
  "createInvalid orig errors =
     \<lparr>original = orig, diceGroups = [], modifiers = [], isValid = False,
      validationErrors = errors\<rparr>"

subsection \<open>String primitives of the host language\<close>

definition isWhitespace :: "char \<Rightarrow> bool" where
  \<comment> \<open>White space and line terminators among the code units 0 to 255: TAB, LF, VT, FF, CR,
      SP and NBSP.\<close>
  "isWhitespace c = ((of_char c :: nat) \<in> {9, 10, 11, 12, 13, 32, 160})"

definition trim :: "string \<Rightarrow> string" where
  "trim s = rev (dropWhile isWhitespace (rev (dropWhile isWhitespace s)))"

definition toLowerCaseChar :: "char \<Rightarrow> char" where
  \<comment> \<open>\<open>A\<close> to \<open>Z\<close>, and the Latin-1 capitals 0xC0 to 0xDE without the multiplication sign,
      move up by 32.\<close>
  "toLowerCaseChar c =
     (let n = (of_char c :: nat)
      in if (65 \<le> n \<and> n \<le> 90) \<or> (192 \<le> n \<and> n \<le> 222 \<and> n \<noteq> 215)
         then char_of (n + 32) else c)"

definition toLowerCase :: "string \<Rightarrow> string" where
  "toLowerCase s = map toLowerCaseChar s"

definition isDigit :: "char \<Rightarrow> bool" where
  \<comment> \<open>The class \<^verbatim>\<open>\d\<close>: the ten ASCII digits.\<close>
  "isDigit c = (c \<in> set ''0123456789'')"

definition digitValue :: "char \<Rightarrow> int" where
  "digitValue c = of_char c - 48"

definition parseDigits :: "string \<Rightarrow> int" where
  \<comment> \<open>The integer that a run of digits denotes.\<close>
  "parseDigits ds = foldl (\<lambda>acc c. 10 * acc + digitValue c) 0 ds"

function digitsOf :: "int \<Rightarrow> string" where
  "digitsOf n =
     (if n < 10 then [''0123456789'' ! nat n]
      else digitsOf (n div 10) @ [''0123456789'' ! nat (n mod 10)])"
  by pat_completeness auto
termination
  by (relation "measure nat") auto

declare digitsOf.simps [simp del]

definition toString :: "int \<Rightarrow> string" where
  \<comment> \<open>The decimal rendering of an integer, as a template literal interpolates a number
      below \<open>10^21\<close>; the engine renders counts, sides and the two limits only.\<close>
  "toString n = (if n < 0 then CHR ''-'' # digitsOf (- n) else digitsOf n)"

fun join :: "string \<Rightarrow> string list \<Rightarrow> string" where
  "join sep [] = []"
| "join sep [x] = x"
| "join sep (x # y # ys) = x @ sep @ join sep (y # ys)"

subsection \<open>Numbers of the host language\<close>

text \<open>
  \<open>bitLength n\<close> is the number of binary digits of a positive \<open>n\<close>. \<open>roundToDouble n\<close> is
  the double nearest to \<open>n \<ge> 0\<close>: every integer up to \<open>2^53\<close> is a double; beyond, the
  53 leading bits are kept and the rest is rounded to nearest, a tie going to the even
  mantissa; \<open>None\<close> stands for a result of \<open>2^1024\<close> or more, which is an infinity.
\<close>

function bitLength :: "int \<Rightarrow> nat" where
  "bitLength n = (if n \<le> 0 then 0 else Suc (bitLength (n div 2)))"
  by pat_completeness auto
termination
  by (relation "measure nat") auto

declare bitLength.simps [simp del]

definition roundToDouble :: "int \<Rightarrow> int option" where
  "roundToDouble n =
     (if n \<le> 2 ^ 53 then Some n
      else
        (let e = bitLength n - 53;
             q = n div 2 ^ e;
             r = n mod 2 ^ e;
             q' = (if 2 * r > 2 ^ e \<or> (2 * r = 2 ^ e \<and> odd q) then q + 1 else q);
             v = q' * 2 ^ e
         in if v \<ge> 2 ^ 1024 then None else Some v))"

definition toNumber :: "int \<Rightarrow> Number" where
  \<comment> \<open>The number value of a mathematical integer.\<close>
  "toNumber n =
     (case roundToDouble \<bar>n\<bar> of
        None \<Rightarrow> (if n < 0 then NegInfinity else PosInfinity)
      | Some v \<Rightarrow> Fin (if n < 0 then - v else v))"

text \<open>The operators \<^verbatim>\<open>+\<close>, \<^verbatim>\<open><=\<close>, \<^verbatim>\<open><\<close>, \<^verbatim>\<open>>=\<close> and \<^verbatim>\<open>>\<close> on numbers.\<close>

fun jsAdd :: "Number \<Rightarrow> Number \<Rightarrow> Number" where
  "jsAdd NaN _ = NaN"
| "jsAdd _ NaN = NaN"
| "jsAdd PosInfinity NegInfinity = NaN"
| "jsAdd NegInfinity PosInfinity = NaN"
| "jsAdd PosInfinity _ = PosInfinity"
| "jsAdd _ PosInfinity = PosInfinity"
| "jsAdd NegInfinity _ = NegInfinity"
| "jsAdd _ NegInfinity = NegInfinity"
| "jsAdd (Fin a) (Fin b) = toNumber (a + b)"

fun jsLe :: "Number \<Rightarrow> Number \<Rightarrow> bool" where
  "jsLe NaN _ = False"
| "jsLe _ NaN = False"
| "jsLe NegInfinity _ = True"
| "jsLe _ PosInfinity = True"
| "jsLe (Fin a) (Fin b) = (a \<le> b)"
| "jsLe _ _ = False"

fun jsLt :: "Number \<Rightarrow> Number \<Rightarrow> bool" where
  "jsLt NaN _ = False"
| "jsLt _ NaN = False"
| "jsLt (Fin a) (Fin b) = (a < b)"
| "jsLt PosInfinity _ = False"
| "jsLt _ NegInfinity = False"
| "jsLt _ _ = True"

definition jsGe :: "Number \<Rightarrow> Number \<Rightarrow> bool" where
  "jsGe a b = jsLe b a"

definition jsGt :: "Number \<Rightarrow> Number \<Rightarrow> bool" where
  "jsGt a b = jsLt b a"

fun intOf :: "Number \<Rightarrow> int" where
  \<comment> \<open>The integer of a finite number.\<close>
  "intOf (Fin n) = n"
| "intOf _ = 0"

fun isFin :: "Number \<Rightarrow> bool" where
  "isFin (Fin n) = True"
| "isFin _ = False"

text \<open>
  \<^verbatim>\<open>parseInt(s, 10)\<close>: leading white space is skipped, a sign is read, and the longest
  run of digits that follows is the value; without a digit the result is \<open>NaN\<close>. The
  value is the nearest double, as the runtime computes it (the language standard lets an
  implementation approximate a literal of more than 20 significant digits).
\<close>

definition parseInt :: "string \<Rightarrow> Number" where
  "parseInt s =
     (let s1 = dropWhile isWhitespace s;
          negative = (case s1 of [] \<Rightarrow> False | c # _ \<Rightarrow> c = CHR ''-'');
          s2 = (case s1 of
                  [] \<Rightarrow> []
                | c # cs \<Rightarrow> if c = CHR ''-'' \<or> c = CHR ''+'' then cs else s1);
          ds = takeWhile isDigit s2
      in if ds = [] then NaN
         else toNumber (if negative then - parseDigits ds else parseDigits ds))"

text \<open>
  A number in a template literal. A finite number is written in decimal, which is what
  the host does below \<open>10^21\<close>; the engine interpolates no larger number (a count or a
  number of sides that is not positive, and the two limits).
\<close>

fun numberToString :: "Number \<Rightarrow> string" where
  "numberToString (Fin n) = toString n"
| "numberToString PosInfinity = ''Infinity''"
| "numberToString NegInfinity = ''-Infinity''"
| "numberToString NaN = ''NaN''"

subsection \<open>The pattern \<^verbatim>\<open>DICE_PATTERN\<close> and \<^verbatim>\<open>RegExp.prototype.exec\<close>\<close>

text \<open>
  \<^verbatim>\<open>/(?<count>\d+)d(?<sides>\d+)|(?<modifier>[+-]\d+)/gi\<close>

  A match carries the three named groups, each a captured string or \<^verbatim>\<open>undefined\<close>.
\<close>

datatype RegExpMatch =
  Groups
    (countGroup: "string option")
    (sidesGroup: "string option")
    (modifierGroup: "string option")

text \<open>
  \<open>matchHere s\<close> tries the pattern at the first character of \<open>s\<close> and returns the match
  with the text after it. The first alternative is tried first. \<^verbatim>\<open>\d+\<close> is greedy and
  takes the whole run of digits; giving back digits cannot help, since the character after
  a shorter run is a digit and the pattern asks for \<open>d\<close> there (or, behind the second
  \<^verbatim>\<open>\d+\<close>, for nothing at all). Under the flag \<^verbatim>\<open>i\<close> the letter matches in both cases.
\<close>

definition matchDice :: "string \<Rightarrow> (RegExpMatch \<times> string) option" where
  "matchDice s =
     (let c = takeWhile isDigit s; r = dropWhile isDigit s
      in if c = [] then None
         else (case r of
                 [] \<Rightarrow> None
               | d # r' \<Rightarrow>
                   if d = CHR ''d'' \<or> d = CHR ''D''
                   then (let sd = takeWhile isDigit r'
                         in if sd = [] then None
                            else Some (Groups (Some c) (Some sd) None, dropWhile isDigit r'))
                   else None))"

definition matchModifier :: "string \<Rightarrow> (RegExpMatch \<times> string) option" where
  "matchModifier s =
     (case s of
        [] \<Rightarrow> None
      | sg # r \<Rightarrow>
          if sg = CHR ''+'' \<or> sg = CHR ''-''
          then (let m = takeWhile isDigit r
                in if m = [] then None
                   else Some (Groups None None (Some (sg # m)), dropWhile isDigit r))
          else None)"

definition matchHere :: "string \<Rightarrow> (RegExpMatch \<times> string) option" where
  "matchHere s = (case matchDice s of Some m \<Rightarrow> Some m | None \<Rightarrow> matchModifier s)"

text \<open>
  \<open>exec\<close> is one call of \<^verbatim>\<open>DICE_PATTERN.exec(trimmed)\<close> under the flag \<^verbatim>\<open>g\<close>. The
  argument is the text from \<^verbatim>\<open>lastIndex\<close> on (the pattern has no anchor and no look-behind,
  so nothing before \<^verbatim>\<open>lastIndex\<close> is read); the search moves right one position at a time
  and stops at the first position where the pattern matches. The result is the match with
  the text from the new \<^verbatim>\<open>lastIndex\<close> on, or \<open>None\<close> for \<^verbatim>\<open>null\<close>. The pattern object is
  shared by all calls of \<^verbatim>\<open>parse\<close>, and \<^verbatim>\<open>parse\<close> sets \<^verbatim>\<open>lastIndex\<close> to 0 before its loop,
  so each call starts at the beginning of its own text.
\<close>

fun exec :: "string \<Rightarrow> (RegExpMatch \<times> string) option" where
  "exec [] = None"
| "exec (c # cs) =
     (case matchHere (c # cs) of Some m \<Rightarrow> Some m | None \<Rightarrow> exec cs)"

subsection \<open>\<^verbatim>\<open>DiceParser.parse\<close>\<close>

definition MAX_DICE :: int where
  "MAX_DICE = 1000"

definition MAX_SIDES :: int where
  "MAX_SIDES = 10000"

fun truthy :: "string option \<Rightarrow> bool" where
  \<comment> \<open>An optional string in a condition: \<^verbatim>\<open>undefined\<close> and the empty string are false.\<close>
  "truthy None = False"
| "truthy (Some s) = (s \<noteq> [])"

fun text_of :: "string option \<Rightarrow> string" where
  "text_of None = []"
| "text_of (Some s) = s"

text \<open>
  The local variables of the loop: \<^verbatim>\<open>diceGroups\<close>, \<^verbatim>\<open>modifiers\<close>, \<^verbatim>\<open>validationErrors\<close>
  and \<^verbatim>\<open>hasValidTokens\<close>.
\<close>

type_synonym parse_state = "DiceGroup list \<times> Number list \<times> ValidationError list \<times> bool"

text \<open>
  The body of the \<^verbatim>\<open>while\<close> loop for one match. Where a dice group is stored, its count
  and its sides are greater than 0 and not greater than the limits, so both are finite and
  \<open>intOf\<close> is their value.
\<close>

definition parseStep :: "RegExpMatch \<Rightarrow> parse_state \<Rightarrow> AppError + parse_state" where
  "parseStep m st =
     (case st of (groups, mods, errs, _) \<Rightarrow>
        if truthy (countGroup m) \<and> truthy (sidesGroup m) then
          (let cnt = parseInt (text_of (countGroup m));
               sds = parseInt (text_of (sidesGroup m));
               errs1 = (if jsLe cnt (Fin 0)
                        then errs @ [\<lparr>field = ''count'',
                                      message = ''Invalid dice count: '' @ numberToString cnt
                                                @ ''. Must be positive.''\<rparr>]
                        else errs);
               errs2 = (if jsLe sds (Fin 0)
                        then errs1 @ [\<lparr>field = ''sides'',
                                       message = ''Invalid die sides: '' @ numberToString sds
                                                 @ ''. Must be positive.''\<rparr>]
                        else errs1)
           in if jsGt cnt (Fin MAX_DICE)
              then Inl (ResourceLimitError
                          (''Dice count exceeds maximum of '' @ toString MAX_DICE))
              else if jsGt sds (Fin MAX_SIDES)
              then Inl (ResourceLimitError
                          (''Die sides exceed maximum of '' @ toString MAX_SIDES))
              else if jsGt cnt (Fin 0) \<and> jsGt sds (Fin 0)
              then Inr (groups @ [\<lparr>count = intOf cnt, sides = intOf sds\<rparr>], mods, errs2, True)
              else Inr (groups, mods, errs2, True))
        else if truthy (modifierGroup m) then
          Inr (groups, mods @ [parseInt (text_of (modifierGroup m))], errs, True)
        else Inr (groups, mods, errs, True))"

lemma matchDice_shorter: "matchDice s = Some (m, r) \<Longrightarrow> length r < length s"
proof -
  assume a: "matchDice s = Some (m, r)"
  then obtain d r' where dw: "dropWhile isDigit s = d # r'" and r: "r = dropWhile isDigit r'"
    unfolding matchDice_def Let_def
    by (auto split: if_splits list.splits)
  have "length (dropWhile isDigit s) \<le> length s"
    by (rule length_dropWhile_le)
  with dw have "length r' < length s" by simp
  moreover have "length (dropWhile isDigit r') \<le> length r'"
    by (rule length_dropWhile_le)
  ultimately show ?thesis using r by simp
qed

lemma matchModifier_shorter: "matchModifier s = Some (m, r) \<Longrightarrow> length r < length s"
proof (cases s)
  case Nil
  assume "matchModifier s = Some (m, r)"
  with Nil show ?thesis by (simp add: matchModifier_def)
next
  case (Cons sg r')
  assume "matchModifier s = Some (m, r)"
  with Cons have "r = dropWhile isDigit r'"
    by (auto simp: matchModifier_def Let_def split: if_splits)
  moreover have "length (dropWhile isDigit r') \<le> length r'"
    by (rule length_dropWhile_le)
  ultimately show ?thesis using Cons by simp
qed

lemma matchHere_shorter: "matchHere s = Some (m, r) \<Longrightarrow> length r < length s"
  by (auto simp: matchHere_def split: option.splits
           dest: matchDice_shorter matchModifier_shorter)

lemma exec_shorter: "exec s = Some (m, r) \<Longrightarrow> length r < length s"
proof (induction s)
  case Nil
  then show ?case by simp
next
  case (Cons c cs)
  show ?case
  proof (cases "matchHere (c # cs)")
    case None
    with Cons show ?thesis by fastforce
  next
    case (Some a)
    with Cons.prems have "matchHere (c # cs) = Some (m, r)" by simp
    then show ?thesis by (rule matchHere_shorter)
  qed
qed

text \<open>
  The \<^verbatim>\<open>while\<close> loop: call \<^verbatim>\<open>exec\<close>, stop on \<^verbatim>\<open>null\<close>, otherwise run the body and go on
  from the new \<^verbatim>\<open>lastIndex\<close>. A \<^verbatim>\<open>throw\<close> in the body leaves the loop at once.
\<close>

function parseLoop :: "string \<Rightarrow> parse_state \<Rightarrow> AppError + parse_state" where
  "parseLoop rest st =
     (case exec rest of
        None \<Rightarrow> Inr st
      | Some (m, rest') \<Rightarrow>
          (case parseStep m st of
             Inl e \<Rightarrow> Inl e
           | Inr st' \<Rightarrow> parseLoop rest' st'))"
  by pat_completeness auto
termination
  by (relation "measure (\<lambda>(rest, st). length rest)") (auto dest: exec_shorter)

definition parse :: "string \<Rightarrow> AppError + DiceExpressionModel" where
  "parse expr =
     (let trimmed = toLowerCase (trim expr)
      in if trimmed = [] then
           Inr (createInvalid expr
                  [\<lparr>field = ''expression'', message = ''Expression cannot be empty''\<rparr>])
         else
           (case parseLoop trimmed ([], [], [], False) of
              Inl e \<Rightarrow> Inl e
            | Inr (groups, mods, errs, hasValidTokens) \<Rightarrow>
                if \<not> hasValidTokens then
                  Inr (createInvalid expr
                         [\<lparr>field = ''expression'',
                           message = ''Invalid dice notation format''\<rparr>])
                else
                  (let errs' =
                         (if length groups = 0
                          then errs @ [\<lparr>field = ''expression'',
                                        message = ''Expression must contain at least one dice group (e.g., 1d6)''\<rparr>]
                          else errs)
                   in if \<not> (length errs' = 0) then Inr (createInvalid expr errs')
                      else Inr \<lparr>original = expr, diceGroups = groups, modifiers = mods,
                                isValid = True, validationErrors = []\<rparr>)))"

subsection \<open>The sequence of matches\<close>

text \<open>
  \<open>scan rest\<close> lists the matches that successive calls of \<^verbatim>\<open>exec\<close> return from \<open>rest\<close>
  on, and \<open>runSteps\<close> runs the loop body over such a list. They serve to state
  properties of the loop in terms of the tokens it meets.
\<close>

function scan :: "string \<Rightarrow> RegExpMatch list" where
  "scan rest =
     (case exec rest of
        None \<Rightarrow> []
      | Some (m, rest') \<Rightarrow> m # scan rest')"
  by pat_completeness auto
termination
  by (relation "measure length") (auto dest: exec_shorter)

fun runSteps :: "RegExpMatch list \<Rightarrow> parse_state \<Rightarrow> AppError + parse_state" where
  "runSteps [] st = Inr st"
| "runSteps (m # ms) st =
     (case parseStep m st of
        Inl e \<Rightarrow> Inl e
      | Inr st' \<Rightarrow> runSteps ms st')"

definition inBounds :: "DiceGroup \<Rightarrow> bool" where
  "inBounds dg =
     (1 \<le> count dg \<and> count dg \<le> MAX_DICE \<and> 1 \<le> sides dg \<and> sides dg \<le> MAX_SIDES)"

subsection \<open>The random source and \<^verbatim>\<open>DiceRoller\<close>\<close>

text \<open>
  \<^verbatim>\<open>crypto.randomInt(min, max)\<close> of the runtime returns an integer \<open>n\<close> with
  \<open>min \<le> n < max\<close>. It raises a type error when a bound is not a safe integer, and a
  range error unless \<open>min < max\<close> and \<open>max - min < 2^48\<close>. The model reads one element of
  the entropy stream and reduces it into the range, so each value of the range is the
  result for some stream, and nothing else ever is.
\<close>

type_synonym rng = "nat stream"

definition isSafeInteger :: "int \<Rightarrow> bool" where
  "isSafeInteger n = (\<bar>n\<bar> \<le> 2 ^ 53 - 1)"

definition randomInt :: "int \<Rightarrow> int \<Rightarrow> rng \<Rightarrow> AppError + (int \<times> rng)" where
  "randomInt lo hi g =
     (if \<not> isSafeInteger lo then Inl TypeError
      else if \<not> isSafeInteger hi then Inl TypeError
      else if hi \<le> lo then Inl RangeError
      else if hi - lo > 2 ^ 48 - 1 then Inl RangeError
      else Inr (lo + int (shd g) mod (hi - lo), stl g))"

text \<open>The \<^verbatim>\<open>for\<close> loop of \<^verbatim>\<open>rollDiceGroup\<close>: \<open>i\<close> runs from 0 while \<open>i < count\<close>.\<close>

function rollLoop :: "int \<Rightarrow> int \<Rightarrow> int \<Rightarrow> int list \<Rightarrow> rng \<Rightarrow> AppError + (int list \<times> rng)" where
  "rollLoop i cnt sds rs g =
     (if i < cnt then
        (case randomInt 1 (sds + 1) g of
           Inl e \<Rightarrow> Inl e
         | Inr (r, g') \<Rightarrow> rollLoop (i + 1) cnt sds (rs @ [r]) g')
      else Inr (rs, g))"
  by pat_completeness auto
termination
  by (relation "measure (\<lambda>(i, cnt, sds, rs, g). nat (cnt - i))") auto

definition rollDiceGroup :: "DiceGroup \<Rightarrow> rng \<Rightarrow> AppError + (RollResultModel \<times> rng)" where
  "rollDiceGroup diceGroup g =
     (case rollLoop 0 (count diceGroup) (sides diceGroup) [] g of
        Inl e \<Rightarrow> Inl e
      | Inr (rs, g') \<Rightarrow>
          Inr (\<lparr>rollNotation = toString (count diceGroup) @ ''d'' @ toString (sides diceGroup),
                rolls = rs,
                subtotal = foldl (\<lambda>sum r. jsAdd sum (Fin r)) (Fin 0) rs\<rparr>, g'))"

definition rollWithAdvantage ::
  "DiceGroup \<Rightarrow> rng \<Rightarrow> AppError + ((RollResultModel \<times> RollResultModel) \<times> rng)" where
  "rollWithAdvantage diceGroup g =
     (case rollDiceGroup diceGroup g of
        Inl e \<Rightarrow> Inl e
      | Inr (primary, g1) \<Rightarrow>
          (case rollDiceGroup diceGroup g1 of
             Inl e \<Rightarrow> Inl e
           | Inr (alternate, g2) \<Rightarrow> Inr ((primary, alternate), g2)))"

subsection \<open>\<^verbatim>\<open>DiceService.roll\<close>\<close>

text \<open>\<^verbatim>\<open>parsed.diceGroups.map(rollDiceGroup)\<close>: the groups are rolled from left to right.\<close>

fun rollAll :: "DiceGroup list \<Rightarrow> rng \<Rightarrow> AppError + (RollResultModel list \<times> rng)" where
  "rollAll [] g = Inr ([], g)"
| "rollAll (dg # dgs) g =
     (case rollDiceGroup dg g of
        Inl e \<Rightarrow> Inl e
      | Inr (r, g') \<Rightarrow>
          (case rollAll dgs g' of
             Inl e \<Rightarrow> Inl e
           | Inr (rs, g'') \<Rightarrow> Inr (r # rs, g'')))"

fun withAlternateRoll :: "DiceRollModel \<Rightarrow> DiceRollModel \<Rightarrow> DiceRollModel" where
  \<comment> \<open>The assignment \<^verbatim>\<open>mainRoll.alternateRoll = altRoll\<close>.\<close>
  "withAlternateRoll (DiceRollModel e rs ms t md _) altRoll =
     DiceRollModel e rs ms t md (Some altRoll)"

definition roll :: "string \<Rightarrow> AdvantageMode \<Rightarrow> rng \<Rightarrow> AppError + (DiceRollModel \<times> rng)" where
  "roll expr mode g =
     (case parse expr of
        Inl e \<Rightarrow> Inl e
      | Inr parsed \<Rightarrow>
          if \<not> isValid parsed then
            Inl (AppValidationError (join ''; '' (map message (validationErrors parsed))))
          else if mode \<noteq> NONE then
            (if length (diceGroups parsed) \<noteq> 1 then
               Inl (AppValidationError
                      ''Advantage/disadvantage only supports single dice group (e.g., 1d20)'')
             else
               (case rollWithAdvantage (diceGroups parsed ! 0) g of
                  Inl e \<Rightarrow> Inl e
                | Inr ((primary, alternate), g') \<Rightarrow>
                    (let primaryTotal =
                           jsAdd (subtotal primary)
                             (foldl (\<lambda>sum md. jsAdd sum md) (Fin 0) (modifiers parsed));
                         alternateTotal =
                           jsAdd (subtotal alternate)
                             (foldl (\<lambda>sum md. jsAdd sum md) (Fin 0) (modifiers parsed));
                         (mainRoll, altRoll) =
                           (if mode = ADVANTAGE then
                              (if jsGe primaryTotal alternateTotal then
                                 (DiceRollModel expr [primary] (modifiers parsed)
                                    primaryTotal mode None,
                                  DiceRollModel expr [alternate] (modifiers parsed)
                                    alternateTotal mode None)
                               else
                                 (DiceRollModel expr [alternate] (modifiers parsed)
                                    alternateTotal mode None,
                                  DiceRollModel expr [primary] (modifiers parsed)
                                    primaryTotal mode None))
                            else
                              (if jsLe primaryTotal alternateTotal then
                                 (DiceRollModel expr [primary] (modifiers parsed)
                                    primaryTotal mode None,
                                  DiceRollModel expr [alternate] (modifiers parsed)
                                    alternateTotal mode None)
                               else
                                 (DiceRollModel expr [alternate] (modifiers parsed)
                                    alternateTotal mode None,
                                  DiceRollModel expr [primary] (modifiers parsed)
                                    primaryTotal mode None)))
                     in Inr (withAlternateRoll mainRoll altRoll, g'))))
          else
            (case rollAll (diceGroups parsed) g of
               Inl e \<Rightarrow> Inl e
             | Inr (rs, g') \<Rightarrow>
                 Inr (DiceRollModel expr rs (modifiers parsed)
                        (jsAdd (foldl (\<lambda>sum r. jsAdd sum (subtotal r)) (Fin 0) rs)
                           (foldl (\<lambda>sum md. jsAdd sum md) (Fin 0) (modifiers parsed)))
                        mode None, g')))"

subsection \<open>Predicates of the statements\<close>

text \<open>
  The invariant of a roll record: the subtotals and the modifiers are finite, and the
  total is their sum as integers. A record is within the safe range when the absolute
  values of its subtotals and of its modifiers are finite and add up to at most \<open>2^53\<close>;
  then no sum over them is rounded.
\<close>

definition recordInvariant :: "DiceRollModel \<Rightarrow> bool" where
  "recordInvariant r =
     (list_all isFin (map subtotal (results r)) \<and> list_all isFin (rollModifiers r)
      \<and> total r = Fin (sum_list (map (intOf \<circ> subtotal) (results r))
                      + sum_list (map intOf (rollModifiers r))))"

definition withinSafeRange :: "DiceRollModel \<Rightarrow> bool" where
  "withinSafeRange r =
     (list_all isFin (map subtotal (results r)) \<and> list_all isFin (rollModifiers r)
      \<and> sum_list (map (abs \<circ> intOf \<circ> subtotal) (results r))
          + sum_list (map (abs \<circ> intOf) (rollModifiers r)) \<le> 2 ^ 53)"

text \<open>
  The structure of a parse outcome: everything but \<open>original\<close>; an exception is kept as
  it is.
\<close>

definition structureOf ::
  "AppError + DiceExpressionModel
   \<Rightarrow> AppError + (DiceGroup list \<times> Number list \<times> bool \<times> ValidationError list)" where
  "structureOf res =
     (case res of
        Inl e \<Rightarrow> Inl e
      | Inr p \<Rightarrow> Inr (diceGroups p, modifiers p, isValid p, validationErrors p))"

text \<open>
  A match that is a dice-group token over the resource limits, and the message of the
  error that the loop body raises for it.
\<close>

definition exceedsLimits :: "RegExpMatch \<Rightarrow> bool" where
  "exceedsLimits m =
     (truthy (countGroup m) \<and> truthy (sidesGroup m)
      \<and> (jsGt (parseInt (text_of (countGroup m))) (Fin MAX_DICE)
         \<or> jsGt (parseInt (text_of (sidesGroup m))) (Fin MAX_SIDES)))"

definition limitMessage :: "RegExpMatch \<Rightarrow> string" where
  "limitMessage m =
     (if jsGt (parseInt (text_of (countGroup m))) (Fin MAX_DICE)
      then ''Dice count exceeds maximum of 1000''
      else ''Die sides exceed maximum of 10000'')"

text \<open>
  The two token shapes as properties of a string, and the strings that have a substring
  of one of these shapes.
\<close>

definition isDiceToken :: "string \<Rightarrow> bool" where
  "isDiceToken w =
     (\<exists>c d sd. w = c @ d # sd \<and> c \<noteq> [] \<and> sd \<noteq> []
        \<and> (\<forall>x\<in>set c. isDigit x) \<and> (\<forall>x\<in>set sd. isDigit x)
        \<and> (d = CHR ''d'' \<or> d = CHR ''D''))"

definition isModifierToken :: "string \<Rightarrow> bool" where
  "isModifierToken w =
     (\<exists>sg ds. w = sg # ds \<and> (sg = CHR ''+'' \<or> sg = CHR ''-'') \<and> ds \<noteq> []
        \<and> (\<forall>x\<in>set ds. isDigit x))"

definition containsToken :: "string \<Rightarrow> bool" where
  "containsToken s =
     (\<exists>pre w post. s = pre @ w @ post \<and> (isDiceToken w \<or> isModifierToken w))"


section \<open>Properties\<close>

subsection \<open>Numbers and the roll loop\<close>

declare rollLoop.simps [simp del]
declare parseLoop.simps [simp del]

lemma toNumber_exact: "\<bar>n\<bar> \<le> 2 ^ 53 \<Longrightarrow> toNumber n = Fin n"
  by (simp add: toNumber_def roundToDouble_def)




lemma jsGt_bounds:
  "jsGt x (Fin 0) \<Longrightarrow> \<not> jsGt x (Fin b) \<Longrightarrow> 1 \<le> intOf x \<and> intOf x \<le> b"
  by (cases x) (auto simp: jsGt_def)

lemma foldl_jsAdd_rolls:
  "\<forall>x\<in>set xs. 0 \<le> x \<Longrightarrow> 0 \<le> a \<Longrightarrow> a + sum_list xs \<le> 2 ^ 53 \<Longrightarrow>
   foldl (\<lambda>sum r. jsAdd sum (Fin r)) (Fin a) xs = Fin (a + sum_list xs)"
proof (induction xs arbitrary: a)
  case Nil
  then show ?case by simp
next
  case (Cons x xs)
  from Cons.prems have x: "0 \<le> x" and s: "0 \<le> sum_list xs"
    by (simp_all add: sum_list_nonneg)
  with Cons.prems have "\<bar>a + x\<bar> \<le> 2 ^ 53" by simp
  then have "jsAdd (Fin a) (Fin x) = Fin (a + x)" by (simp add: toNumber_exact)
  moreover have "foldl (\<lambda>sum r. jsAdd sum (Fin r)) (Fin (a + x)) xs = Fin (a + x + sum_list xs)"
    using Cons.prems x by (intro Cons.IH) simp_all
  ultimately show ?case by (simp add: add.assoc)
qed

lemma sum_list_le_length:
  "\<forall>x\<in>set xs. x \<le> b \<Longrightarrow> sum_list xs \<le> int (length xs) * b"
  for b :: int
  by (induction xs) (auto simp: algebra_simps)

lemma randomInt_die:
  assumes "1 \<le> sds" "sds < 2 ^ 48"
  shows "\<exists>r. randomInt 1 (sds + 1) g = Inr (r, stl g) \<and> 1 \<le> r \<and> r \<le> sds"
proof -
  have "0 \<le> int (shd g) mod sds" "int (shd g) mod sds < sds"
    using assms by simp_all
  then have "1 \<le> 1 + int (shd g) mod sds" "1 + int (shd g) mod sds \<le> sds"
    by linarith+
  then show ?thesis using assms by (simp add: randomInt_def isSafeInteger_def)
qed

lemma rollLoop_ok:
  "1 \<le> sds \<Longrightarrow> sds < 2 ^ 48 \<Longrightarrow>
   \<exists>new g'. rollLoop i cnt sds rs g = Inr (rs @ new, g')
      \<and> length new = nat (cnt - i) \<and> (\<forall>x\<in>set new. 1 \<le> x \<and> x \<le> sds)"
proof (induction i cnt sds rs g rule: rollLoop.induct)
  case (1 i cnt sds rs g)
  show ?case
  proof (cases "i < cnt")
    case False
    then show ?thesis by (subst rollLoop.simps) simp
  next
    case True
    obtain r where r: "randomInt 1 (sds + 1) g = Inr (r, stl g)" "1 \<le> r" "r \<le> sds"
      using randomInt_die [OF "1.prems"] by blast
    from "1.IH" [OF True r(1) refl "1.prems"]
    obtain new g' where n: "rollLoop (i + 1) cnt sds (rs @ [r]) (stl g) = Inr ((rs @ [r]) @ new, g')"
      "length new = nat (cnt - (i + 1))" "\<forall>x\<in>set new. 1 \<le> x \<and> x \<le> sds"
      by blast
    have "rollLoop i cnt sds rs g = Inr (rs @ (r # new), g')"
      using True r(1) n(1) by (subst rollLoop.simps) simp
    moreover have "length (r # new) = nat (cnt - i)"
      using True n(2) by simp
    moreover have "\<forall>x\<in>set (r # new). 1 \<le> x \<and> x \<le> sds"
      using r n(3) by simp
    ultimately show ?thesis by blast
  qed
qed

lemma rollDiceGroup_returns:
  assumes "1 \<le> sides dg" "sides dg < 2 ^ 48"
  shows "\<exists>r g'. rollDiceGroup dg g = Inr (r, g')
           \<and> length (rolls r) = nat (count dg)
           \<and> (\<forall>x\<in>set (rolls r). 1 \<le> x \<and> x \<le> sides dg)
           \<and> subtotal r = foldl (\<lambda>sum x. jsAdd sum (Fin x)) (Fin 0) (rolls r)
           \<and> rollNotation r = toString (count dg) @ ''d'' @ toString (sides dg)"
proof -
  from rollLoop_ok [OF assms, of 0 "count dg" "[]" g]
  obtain new g' where n: "rollLoop 0 (count dg) (sides dg) [] g = Inr (new, g')"
    "length new = nat (count dg)" "\<forall>x\<in>set new. 1 \<le> x \<and> x \<le> sides dg"
    by auto
  then show ?thesis
    by (simp add: rollDiceGroup_def)
qed

lemma rollDiceGroup_ok:
  assumes "inBounds dg"
  shows "\<exists>r g'. rollDiceGroup dg g = Inr (r, g')
           \<and> length (rolls r) = nat (count dg)
           \<and> (\<forall>x\<in>set (rolls r). 1 \<le> x \<and> x \<le> sides dg)
           \<and> subtotal r = Fin (sum_list (rolls r))
           \<and> rollNotation r = toString (count dg) @ ''d'' @ toString (sides dg)"
proof -
  from assms have b: "1 \<le> count dg" "count dg \<le> 1000" "1 \<le> sides dg" "sides dg \<le> 10000"
    by (simp_all add: inBounds_def MAX_DICE_def MAX_SIDES_def)
  then have "sides dg < 2 ^ 48" by simp
  from rollDiceGroup_returns [OF b(3) this, of g]
  obtain r g' where r: "rollDiceGroup dg g = Inr (r, g')"
    "length (rolls r) = nat (count dg)"
    "\<forall>x\<in>set (rolls r). 1 \<le> x \<and> x \<le> sides dg"
    "subtotal r = foldl (\<lambda>sum x. jsAdd sum (Fin x)) (Fin 0) (rolls r)"
    "rollNotation r = toString (count dg) @ ''d'' @ toString (sides dg)"
    by blast
  from r(3) have "sum_list (rolls r) \<le> int (length (rolls r)) * sides dg"
    by (intro sum_list_le_length) simp
  also from r(2) b(1) have "\<dots> = count dg * sides dg" by simp
  also from b have "\<dots> \<le> 1000 * 10000" by (intro mult_mono) simp_all
  finally have "0 + sum_list (rolls r) \<le> 2 ^ 53" by simp
  moreover from r(3) have "\<forall>x\<in>set (rolls r). 0 \<le> x" by auto
  ultimately have "foldl (\<lambda>sum x. jsAdd sum (Fin x)) (Fin 0) (rolls r) = Fin (0 + sum_list (rolls r))"
    by (intro foldl_jsAdd_rolls) simp_all
  with r show ?thesis by auto
qed

subsection \<open>The parse loop and the groups it accepts\<close>

declare scan.simps [simp del]

lemma parseLoop_runSteps: "parseLoop rest st = runSteps (scan rest) st"
proof (induction rest st rule: parseLoop.induct)
  case (1 rest st)
  show ?case
  proof (cases "exec rest")
    case None
    then show ?thesis
      by (subst parseLoop.simps, subst scan.simps) simp
  next
    case (Some a)
    obtain m rest' where a: "a = (m, rest')" by (cases a)
    show ?thesis
    proof (cases "parseStep m st")
      case (Inl e)
      with Some a show ?thesis
        by (subst parseLoop.simps, subst scan.simps) simp
    next
      case (Inr st')
      from "1.IH" [OF Some a [symmetric] Inr]
      have "parseLoop rest' st' = runSteps (scan rest') st'" .
      with Some a Inr show ?thesis
        by (subst parseLoop.simps, subst scan.simps) simp
    qed
  qed
qed

lemma parseStep_groups:
  assumes "parseStep m (gs, ms, es, h) = Inr (gs', ms', es', h')"
  shows "gs' = gs \<or>
         (\<exists>c s. gs' = gs @ [\<lparr>count = intOf c, sides = intOf s\<rparr>]
            \<and> jsGt c (Fin 0) \<and> \<not> jsGt c (Fin MAX_DICE)
            \<and> jsGt s (Fin 0) \<and> \<not> jsGt s (Fin MAX_SIDES))"
  using assms
  by (simp add: parseStep_def Let_def split: if_splits) blast+

lemma parseStep_bounds:
  assumes "parseStep m (gs, ms, es, h) = Inr (gs', ms', es', h')"
    and "\<forall>dg\<in>set gs. inBounds dg"
  shows "\<forall>dg\<in>set gs'. inBounds dg"
proof -
  from parseStep_groups [OF assms(1)] show ?thesis
  proof
    assume "gs' = gs"
    with assms(2) show ?thesis by simp
  next
    assume "\<exists>c s. gs' = gs @ [\<lparr>count = intOf c, sides = intOf s\<rparr>]
              \<and> jsGt c (Fin 0) \<and> \<not> jsGt c (Fin MAX_DICE)
              \<and> jsGt s (Fin 0) \<and> \<not> jsGt s (Fin MAX_SIDES)"
    then obtain c s where g: "gs' = gs @ [\<lparr>count = intOf c, sides = intOf s\<rparr>]"
      and c: "jsGt c (Fin 0)" "\<not> jsGt c (Fin MAX_DICE)"
      and s: "jsGt s (Fin 0)" "\<not> jsGt s (Fin MAX_SIDES)"
      by blast
    from jsGt_bounds [OF c] jsGt_bounds [OF s]
    have "inBounds \<lparr>count = intOf c, sides = intOf s\<rparr>" by (simp add: inBounds_def)
    with assms(2) g show ?thesis by simp
  qed
qed

lemma runSteps_bounds:
  "runSteps ms st = Inr st' \<Longrightarrow> \<forall>dg\<in>set (fst st). inBounds dg
   \<Longrightarrow> \<forall>dg\<in>set (fst st'). inBounds dg"
proof (induction ms arbitrary: st)
  case Nil
  then show ?case by simp
next
  case (Cons m ms)
  from Cons.prems(1) obtain st1 where s1: "parseStep m st = Inr st1"
    and s2: "runSteps ms st1 = Inr st'"
    by (auto split: sum.splits)
  obtain gs mods es h where st: "st = (gs, mods, es, h)" by (cases st)
  obtain gs1 mods1 es1 h1 where st1: "st1 = (gs1, mods1, es1, h1)" by (cases st1)
  from parseStep_bounds [of m gs mods es h gs1 mods1 es1 h1] s1 st st1 Cons.prems(2)
  have "\<forall>dg\<in>set (fst st1). inBounds dg" by simp
  with Cons.IH [OF s2] show ?case .
qed

lemma parse_diceGroups:
  assumes "parse expr = Inr parsed"
  shows "diceGroups parsed = [] \<or>
         (\<exists>mods errs h. runSteps (scan (toLowerCase (trim expr))) ([], [], [], False)
                          = Inr (diceGroups parsed, mods, errs, h))"
  using assms
  by (auto simp: parse_def Let_def createInvalid_def parseLoop_runSteps
           split: if_splits sum.splits prod.splits)

lemma parse_bounds:
  assumes "parse expr = Inr parsed" and "dg \<in> set (diceGroups parsed)"
  shows "inBounds dg"
proof -
  from parse_diceGroups [OF assms(1)] assms(2)
  obtain mods errs h where
    "runSteps (scan (toLowerCase (trim expr))) ([], [], [], False)
       = Inr (diceGroups parsed, mods, errs, h)"
    by auto
  from runSteps_bounds [OF this] assms(2) show ?thesis by simp
qed

text \<open>
  Claim C3. For every dice group that the parser accepts, \<^verbatim>\<open>rollDiceGroup\<close> returns a
  result (it does not raise) whose \<open>rolls\<close> has exactly \<open>count\<close> elements, each between 1
  and \<open>sides\<close>, whose \<open>subtotal\<close> is the exact sum of the rolls, and whose notation is
  the decimal count, a lower-case \<open>d\<close> and the decimal number of sides, whatever the case
  of the letter in the expression was; for a one-sided die every roll is 1.
\<close>

theorem rollDiceGroup_accepted_group:
  assumes "parse expr = Inr parsed" and "dg \<in> set (diceGroups parsed)"
  shows "\<exists>r g'. rollDiceGroup dg g = Inr (r, g')
           \<and> int (length (rolls r)) = count dg
           \<and> (\<forall>x\<in>set (rolls r). 1 \<le> x \<and> x \<le> sides dg)
           \<and> subtotal r = Fin (sum_list (rolls r))
           \<and> rollNotation r = toString (count dg) @ ''d'' @ toString (sides dg)
           \<and> (sides dg = 1 \<longrightarrow> (\<forall>x\<in>set (rolls r). x = 1))"
proof -
  from parse_bounds [OF assms] have ib: "inBounds dg" .
  then have b: "1 \<le> count dg" by (simp add: inBounds_def)
  from rollDiceGroup_ok [OF ib, of g]
  obtain r g' where r: "rollDiceGroup dg g = Inr (r, g')"
    "length (rolls r) = nat (count dg)"
    "\<forall>x\<in>set (rolls r). 1 \<le> x \<and> x \<le> sides dg"
    "subtotal r = Fin (sum_list (rolls r))"
    "rollNotation r = toString (count dg) @ ''d'' @ toString (sides dg)"
    by blast
  from r(2) b have "int (length (rolls r)) = count dg" by simp
  moreover from r(3) have "sides dg = 1 \<longrightarrow> (\<forall>x\<in>set (rolls r). x = 1)" by force
  ultimately show ?thesis using r by blast
qed

text \<open>
  The claim at the expression \<^verbatim>\<open>2D6\<close>: the parser accepts the group, and rolling it
  gives two rolls under the notation \<^verbatim>\<open>2d6\<close>.
\<close>

theorem rollDiceGroup_accepted_group_witness:
  "parse ''2D6'' =
     Inr \<lparr>original = ''2D6'', diceGroups = [\<lparr>count = 2, sides = 6\<rparr>], modifiers = [],
          isValid = True, validationErrors = []\<rparr>
   \<and> (\<exists>r g'. rollDiceGroup \<lparr>count = 2, sides = 6\<rparr> (3 ## 10 ## sconst 0) = Inr (r, g')
          \<and> int (length (rolls r)) = 2
          \<and> subtotal r = Fin (sum_list (rolls r))
          \<and> rollNotation r = ''2d6'')"
proof -
  have p: "parse ''2D6'' =
     Inr \<lparr>original = ''2D6'', diceGroups = [\<lparr>count = 2, sides = 6\<rparr>], modifiers = [],
          isValid = True, validationErrors = []\<rparr>"
    by code_simp
  have n: "toString 2 @ ''d'' @ toString 6 = ''2d6''"
    by code_simp
  from rollDiceGroup_accepted_group [OF p, of "\<lparr>count = 2, sides = 6\<rparr>" "3 ## 10 ## sconst 0"] p n
  show ?thesis by auto
qed

subsection \<open>Totals in the roll service\<close>

lemma isFin_Fin_intOf: "isFin x \<Longrightarrow> Fin (intOf x) = x"
  by (cases x) simp_all

lemma foldl_jsAdd_modifiers:
  "list_all isFin ms \<Longrightarrow> \<bar>a\<bar> + sum_list (map (abs \<circ> intOf) ms) \<le> 2 ^ 53 \<Longrightarrow>
   foldl (\<lambda>sum md. jsAdd sum md) (Fin a) ms = Fin (a + sum_list (map intOf ms))"
proof (induction ms arbitrary: a)
  case Nil
  then show ?case by simp
next
  case (Cons m ms)
  from Cons.prems(1) obtain x where m: "m = Fin x" by (cases m) simp_all
  have "0 \<le> sum_list (map (abs \<circ> intOf) ms)"
    by (intro sum_list_nonneg) auto
  with Cons.prems(2) m have "\<bar>a + x\<bar> \<le> 2 ^ 53" by (simp add: comp_def)
  then have "jsAdd (Fin a) m = Fin (a + x)" by (simp add: m toNumber_exact)
  moreover have "foldl (\<lambda>sum md. jsAdd sum md) (Fin (a + x)) ms
                   = Fin (a + x + sum_list (map intOf ms))"
    using Cons.prems m by (intro Cons.IH) simp_all
  ultimately show ?case by (simp add: m add.assoc)
qed

lemma foldl_jsAdd_subtotals:
  "list_all isFin (map subtotal rs) \<Longrightarrow>
   \<bar>a\<bar> + sum_list (map (abs \<circ> intOf \<circ> subtotal) rs) \<le> 2 ^ 53 \<Longrightarrow>
   foldl (\<lambda>sum r. jsAdd sum (subtotal r)) (Fin a) rs
     = Fin (a + sum_list (map (intOf \<circ> subtotal) rs))"
proof (induction rs arbitrary: a)
  case Nil
  then show ?case by simp
next
  case (Cons r rs)
  from Cons.prems(1) obtain x where r: "subtotal r = Fin x" by (cases "subtotal r") simp_all
  have "0 \<le> sum_list (map (abs \<circ> intOf \<circ> subtotal) rs)"
    by (intro sum_list_nonneg) auto
  with Cons.prems(2) r have "\<bar>a + x\<bar> \<le> 2 ^ 53" by (simp add: comp_def)
  then have "jsAdd (Fin a) (subtotal r) = Fin (a + x)" by (simp add: r toNumber_exact)
  moreover have "foldl (\<lambda>sum r. jsAdd sum (subtotal r)) (Fin (a + x)) rs
                   = Fin (a + x + sum_list (map (intOf \<circ> subtotal) rs))"
    using Cons.prems r by (intro Cons.IH) simp_all
  ultimately show ?case by (simp add: r add.assoc comp_def)
qed

text \<open>The total of a plain roll, and the total of one candidate of a double roll.\<close>

lemma safe_total_plain:
  assumes "withinSafeRange (DiceRollModel e rs ms t md alt)"
    and "t = jsAdd (foldl (\<lambda>sum r. jsAdd sum (subtotal r)) (Fin 0) rs)
                   (foldl (\<lambda>sum md. jsAdd sum md) (Fin 0) ms)"
  shows "recordInvariant (DiceRollModel e rs ms t md alt)"
proof -
  let ?S = "sum_list (map (intOf \<circ> subtotal) rs)" and ?M = "sum_list (map intOf ms)"
  let ?AS = "sum_list (map (abs \<circ> intOf \<circ> subtotal) rs)"
  let ?AM = "sum_list (map (abs \<circ> intOf) ms)"
  from assms(1) have f: "list_all isFin (map subtotal rs)" "list_all isFin ms"
    and le: "?AS + ?AM \<le> 2 ^ 53"
    by (simp_all add: withinSafeRange_def)
  have nn: "0 \<le> ?AS" "0 \<le> ?AM" by (intro sum_list_nonneg; auto)+
  have ab: "\<bar>?S\<bar> \<le> ?AS" "\<bar>?M\<bar> \<le> ?AM"
    using sum_list_abs [of "map (intOf \<circ> subtotal) rs"] sum_list_abs [of "map intOf ms"]
    by (simp_all add: comp_def)
  have "foldl (\<lambda>sum r. jsAdd sum (subtotal r)) (Fin 0) rs = Fin (0 + ?S)"
    using f(1) le nn by (intro foldl_jsAdd_subtotals) simp_all
  moreover have "foldl (\<lambda>sum md. jsAdd sum md) (Fin 0) ms = Fin (0 + ?M)"
    using f(2) le nn by (intro foldl_jsAdd_modifiers) simp_all
  moreover have "\<bar>?S + ?M\<bar> \<le> 2 ^ 53" using ab le by linarith
  ultimately have "t = Fin (?S + ?M)" using assms(2) by (simp add: toNumber_exact)
  with f show ?thesis by (simp add: recordInvariant_def)
qed

lemma safe_total_candidate:
  assumes "withinSafeRange (DiceRollModel e [p] ms t md alt)"
    and "t = jsAdd (subtotal p) (foldl (\<lambda>sum md. jsAdd sum md) (Fin 0) ms)"
  shows "recordInvariant (DiceRollModel e [p] ms t md alt)"
proof -
  from assms(1) obtain x where p: "subtotal p = Fin x"
    by (cases "subtotal p") (simp_all add: withinSafeRange_def)
  have "0 \<le> sum_list (map (abs \<circ> intOf) ms)" by (intro sum_list_nonneg) auto
  with assms(1) p have "\<bar>0 + x\<bar> \<le> 2 ^ 53" by (simp add: withinSafeRange_def)
  then have "jsAdd (Fin 0) (subtotal p) = subtotal p" by (simp add: p toNumber_exact)
  with assms(2) have "t = jsAdd (foldl (\<lambda>sum r. jsAdd sum (subtotal r)) (Fin 0) [p])
                               (foldl (\<lambda>sum md. jsAdd sum md) (Fin 0) ms)"
    by simp
  with assms(1) show ?thesis by (rule safe_total_plain)
qed

text \<open>
  Claim C4, amended. Every record that \<open>roll\<close> returns, in every mode, and the alternate
  record nested in it when there is one, has a total equal to the sum of the subtotals of
  its results plus the sum of its modifiers, provided the record is within the safe range:
  its subtotals and modifiers are finite and their absolute values add up to at most
  \<open>2^53\<close>. Beyond that range the sums of the host language are rounded.
\<close>

theorem roll_total_invariant:
  assumes "roll expr mode g = Inr (r, g')"
  shows "(withinSafeRange r \<longrightarrow> recordInvariant r)
       \<and> (\<forall>a. alternateRoll r = Some a \<longrightarrow> withinSafeRange a \<longrightarrow> recordInvariant a)"
proof (cases "parse expr")
  case (Inl e)
  with assms show ?thesis by (simp add: roll_def)
next
  case (Inr parsed)
  show ?thesis
  proof (cases "mode = NONE")
    case True
    with assms Inr obtain rs where
      "r = DiceRollModel expr rs (modifiers parsed)
             (jsAdd (foldl (\<lambda>sum r. jsAdd sum (subtotal r)) (Fin 0) rs)
                    (foldl (\<lambda>sum md. jsAdd sum md) (Fin 0) (modifiers parsed)))
             mode None"
      by (auto simp: roll_def split: if_splits sum.splits)
    then show ?thesis by (auto intro: safe_total_plain)
  next
    case False
    with assms Inr obtain p a where pa:
      "r = DiceRollModel expr [p] (modifiers parsed)
             (jsAdd (subtotal p) (foldl (\<lambda>sum md. jsAdd sum md) (Fin 0) (modifiers parsed)))
             mode
             (Some (DiceRollModel expr [a] (modifiers parsed)
                      (jsAdd (subtotal a)
                         (foldl (\<lambda>sum md. jsAdd sum md) (Fin 0) (modifiers parsed)))
                      mode None))"
      by (auto simp: roll_def Let_def split: if_splits sum.splits prod.splits)
    have "withinSafeRange r \<longrightarrow> recordInvariant r"
      unfolding pa by (auto intro: safe_total_candidate)
    moreover have "\<forall>x. alternateRoll r = Some x \<longrightarrow> withinSafeRange x \<longrightarrow> recordInvariant x"
      unfolding pa by (auto intro: safe_total_candidate)
    ultimately show ?thesis by blast
  qed
qed

lemma toString_small:
  "toString 1 = ''1''" "toString 2 = ''2''" "toString 4 = ''4''" "toString 6 = ''6''"
  "toString 20 = ''20''"
  by code_simp+

lemma parse_1d20_plus_3:
  "parse ''1d20+3'' =
     Inr \<lparr>original = ''1d20+3'', diceGroups = [\<lparr>count = 1, sides = 20\<rparr>], modifiers = [Fin 3],
          isValid = True, validationErrors = []\<rparr>"
  by code_simp

lemma rollDiceGroup_1d20:
  "rollDiceGroup \<lparr>count = 1, sides = 20\<rparr> (n ## g)
     = Inr (\<lparr>rollNotation = ''1d20'', rolls = [1 + int n mod 20],
             subtotal = Fin (1 + int n mod 20)\<rparr>, g)"
proof -
  have "0 \<le> int n mod 20" "int n mod 20 < 20" by simp_all
  then have "\<bar>1 + int n mod 20\<bar> \<le> 20" by linarith
  then have "\<bar>1 + int n mod 20\<bar> \<le> 2 ^ 53" by simp
  then have "toNumber (1 + int n mod 20) = Fin (1 + int n mod 20)" by (rule toNumber_exact)
  then show ?thesis
    by (simp add: rollDiceGroup_def rollLoop.simps randomInt_def isSafeInteger_def toString_small)
qed

text \<open>
  The invariant at \<^verbatim>\<open>1d20+3\<close> under disadvantage with the draws 12 and 5: the selected
  total is \<open>5 + 3\<close>, the alternate total is \<open>12 + 3\<close>.
\<close>

theorem roll_total_invariant_witness:
  "roll ''1d20+3'' DISADVANTAGE (11 ## 4 ## sconst 0) =
     Inr (DiceRollModel ''1d20+3'' [\<lparr>rollNotation = ''1d20'', rolls = [5], subtotal = Fin 5\<rparr>]
            [Fin 3] (Fin 8) DISADVANTAGE
            (Some (DiceRollModel ''1d20+3''
                     [\<lparr>rollNotation = ''1d20'', rolls = [12], subtotal = Fin 12\<rparr>]
                     [Fin 3] (Fin 15) DISADVANTAGE None)),
          sconst 0)
   \<and> withinSafeRange
        (DiceRollModel ''1d20+3'' [\<lparr>rollNotation = ''1d20'', rolls = [5], subtotal = Fin 5\<rparr>]
            [Fin 3] (Fin 8) DISADVANTAGE
            (Some (DiceRollModel ''1d20+3''
                     [\<lparr>rollNotation = ''1d20'', rolls = [12], subtotal = Fin 12\<rparr>]
                     [Fin 3] (Fin 15) DISADVANTAGE None)))
   \<and> recordInvariant
        (DiceRollModel ''1d20+3'' [\<lparr>rollNotation = ''1d20'', rolls = [5], subtotal = Fin 5\<rparr>]
            [Fin 3] (Fin 8) DISADVANTAGE
            (Some (DiceRollModel ''1d20+3''
                     [\<lparr>rollNotation = ''1d20'', rolls = [12], subtotal = Fin 12\<rparr>]
                     [Fin 3] (Fin 15) DISADVANTAGE None)))
   \<and> withinSafeRange
        (DiceRollModel ''1d20+3'' [\<lparr>rollNotation = ''1d20'', rolls = [12], subtotal = Fin 12\<rparr>]
           [Fin 3] (Fin 15) DISADVANTAGE None)
   \<and> recordInvariant
        (DiceRollModel ''1d20+3'' [\<lparr>rollNotation = ''1d20'', rolls = [12], subtotal = Fin 12\<rparr>]
           [Fin 3] (Fin 15) DISADVANTAGE None)"
proof -
  have n: "toNumber 3 = Fin 3" "toNumber 8 = Fin 8" "toNumber 15 = Fin 15"
    by (simp_all add: toNumber_exact)
  have h: "roll ''1d20+3'' DISADVANTAGE (11 ## 4 ## sconst 0) =
     Inr (DiceRollModel ''1d20+3'' [\<lparr>rollNotation = ''1d20'', rolls = [5], subtotal = Fin 5\<rparr>]
            [Fin 3] (Fin 8) DISADVANTAGE
            (Some (DiceRollModel ''1d20+3''
                     [\<lparr>rollNotation = ''1d20'', rolls = [12], subtotal = Fin 12\<rparr>]
                     [Fin 3] (Fin 15) DISADVANTAGE None)),
          sconst 0)"
    by (simp add: roll_def parse_1d20_plus_3 rollWithAdvantage_def rollDiceGroup_1d20 n)
  from roll_total_invariant [OF h] h show ?thesis
    by (simp add: withinSafeRange_def)
qed

text \<open>
  Claim C4 as stated fails. In \<^verbatim>\<open>1d1+9007199254740991+1\<close> the modifiers add up to \<open>2^53\<close>,
  and the subtotal 1 added to it is rounded back to \<open>2^53\<close>: the total of the record is
  9007199254740992, one less than the sum of its subtotal and its modifiers.
\<close>

theorem roll_total_rounded:
  "roll ''1d1+9007199254740991+1'' NONE (sconst 0) =
     Inr (DiceRollModel ''1d1+9007199254740991+1''
            [\<lparr>rollNotation = ''1d1'', rolls = [1], subtotal = Fin 1\<rparr>]
            [Fin 9007199254740991, Fin 1] (Fin 9007199254740992) NONE None,
          sconst 0)
   \<and> Fin 9007199254740992 \<noteq> Fin (1 + (9007199254740991 + 1))
   \<and> \<not> recordInvariant
          (DiceRollModel ''1d1+9007199254740991+1''
             [\<lparr>rollNotation = ''1d1'', rolls = [1], subtotal = Fin 1\<rparr>]
             [Fin 9007199254740991, Fin 1] (Fin 9007199254740992) NONE None)"
proof -
  have p: "parse ''1d1+9007199254740991+1'' =
     Inr \<lparr>original = ''1d1+9007199254740991+1'', diceGroups = [\<lparr>count = 1, sides = 1\<rparr>],
          modifiers = [Fin 9007199254740991, Fin 1], isValid = True, validationErrors = []\<rparr>"
    by code_simp
  have n: "toNumber 1 = Fin 1" "toNumber 9007199254740991 = Fin 9007199254740991"
    "toNumber 9007199254740992 = Fin 9007199254740992"
    by (simp_all add: toNumber_exact)
  have t: "toNumber 9007199254740993 = Fin 9007199254740992"
    by code_simp
  have d: "rollDiceGroup \<lparr>count = 1, sides = 1\<rparr> (sconst 0)
             = Inr (\<lparr>rollNotation = ''1d1'', rolls = [1], subtotal = Fin 1\<rparr>, sconst 0)"
    by (simp add: rollDiceGroup_def rollLoop.simps randomInt_def isSafeInteger_def
                  toString_small n)
  show ?thesis
    by (simp add: roll_def p d n t recordInvariant_def)
qed

subsection \<open>Selection in the roll service\<close>

lemma rollWithAdvantage_ok:
  assumes "inBounds dg"
  shows "\<exists>p a g1 g2. rollDiceGroup dg g = Inr (p, g1) \<and> rollDiceGroup dg g1 = Inr (a, g2)
           \<and> rollWithAdvantage dg g = Inr ((p, a), g2)
           \<and> isFin (subtotal p) \<and> isFin (subtotal a)"
proof -
  from rollDiceGroup_ok [OF assms, of g]
  obtain p g1 where p: "rollDiceGroup dg g = Inr (p, g1)" "isFin (subtotal p)" by auto
  from rollDiceGroup_ok [OF assms, of g1]
  obtain a g2 where a: "rollDiceGroup dg g1 = Inr (a, g2)" "isFin (subtotal a)" by auto
  from p a show ?thesis by (simp add: rollWithAdvantage_def)
qed




subsection \<open>The bounds of a valid expression\<close>

text \<open>
  Claim C8, amended. Every dice group of an expression that the parser marks valid has
  \<open>1 \<le> count \<le> 1000\<close> and \<open>1 \<le> sides \<le> 10000\<close>. The lower bound on the sides is 1, not 2:
  the parser rejects a number of sides only when it is not positive.
\<close>

theorem parse_valid_groups_in_bounds:
  assumes "parse expr = Inr parsed" and "isValid parsed" and "dg \<in> set (diceGroups parsed)"
  shows "1 \<le> count dg \<and> count dg \<le> 1000 \<and> 1 \<le> sides dg \<and> sides dg \<le> 10000"
  using parse_bounds [OF assms(1,3)] by (simp add: inBounds_def MAX_DICE_def MAX_SIDES_def)

text \<open>
  The bounds at \<^verbatim>\<open>5d1\<close>.
\<close>

theorem parse_valid_groups_in_bounds_witness:
  "parse ''5d1'' =
     Inr \<lparr>original = ''5d1'', diceGroups = [\<lparr>count = 5, sides = 1\<rparr>], modifiers = [],
          isValid = True, validationErrors = []\<rparr>
   \<and> 1 \<le> count \<lparr>count = 5, sides = 1\<rparr> \<and> count \<lparr>count = 5, sides = 1\<rparr> \<le> 1000
   \<and> 1 \<le> sides \<lparr>count = 5, sides = 1\<rparr> \<and> sides \<lparr>count = 5, sides = 1\<rparr> \<le> 10000"
proof -
  have p: "parse ''5d1'' =
     Inr \<lparr>original = ''5d1'', diceGroups = [\<lparr>count = 5, sides = 1\<rparr>], modifiers = [],
          isValid = True, validationErrors = []\<rparr>"
    by code_simp
  from parse_valid_groups_in_bounds [OF p, of "\<lparr>count = 5, sides = 1\<rparr>"] p
  show ?thesis by simp
qed

text \<open>
  Claim C8 as stated fails: \<^verbatim>\<open>5d1\<close> is valid and its group has one side.
\<close>

theorem parse_one_sided_die_valid:
  "parse ''5d1'' =
     Inr \<lparr>original = ''5d1'', diceGroups = [\<lparr>count = 5, sides = 1\<rparr>], modifiers = [],
          isValid = True, validationErrors = []\<rparr>
   \<and> \<not> (2 \<le> sides \<lparr>count = 5, sides = 1\<rparr>)"
  by code_simp

subsection \<open>Compound expressions\<close>

lemma parse_compound:
  "parse ''2d6+1d4+3'' =
     Inr \<lparr>original = ''2d6+1d4+3'', diceGroups = [\<lparr>count = 2, sides = 6\<rparr>],
          modifiers = [Fin 1, Fin 3], isValid = True, validationErrors = []\<rparr>"
  by code_simp

lemma die_value: "\<bar>1 + int n mod 6\<bar> \<le> 6"
proof -
  have "0 \<le> int n mod 6" "int n mod 6 < 6" by simp_all
  then show ?thesis by linarith
qed

lemma rollDiceGroup_2d6:
  "rollDiceGroup \<lparr>count = 2, sides = 6\<rparr> g
     = Inr (\<lparr>rollNotation = ''2d6'',
             rolls = [1 + int (shd g) mod 6, 1 + int (shd (stl g)) mod 6],
             subtotal = Fin (1 + int (shd g) mod 6 + (1 + int (shd (stl g)) mod 6))\<rparr>,
            stl (stl g))"
proof -
  let ?x = "1 + int (shd g) mod 6" and ?y = "1 + int (shd (stl g)) mod 6"
  have x: "\<bar>?x\<bar> \<le> 6" and y: "\<bar>?y\<bar> \<le> 6" by (rule die_value)+
  then have "\<bar>?x\<bar> \<le> 12" "\<bar>?x + ?y\<bar> \<le> 12" by linarith+
  then have "\<bar>?x\<bar> \<le> 2 ^ 53" "\<bar>?x + ?y\<bar> \<le> 2 ^ 53" by simp_all
  then have "toNumber ?x = Fin ?x" "toNumber (?x + ?y) = Fin (?x + ?y)"
    by (simp_all only: toNumber_exact)
  then show ?thesis
    by (simp add: rollDiceGroup_def rollLoop.simps randomInt_def isSafeInteger_def
                  toString_small)
qed

lemma modifiers_1_3: "foldl (\<lambda>sum md. jsAdd sum md) (Fin 0) [Fin 1, Fin 3] = Fin 4"
  by (simp add: toNumber_exact)

text \<open>
  Claim C1 at its input. In \<^verbatim>\<open>2d6+1d4+3\<close> the search that follows the match \<^verbatim>\<open>2d6\<close>
  starts at the plus sign, where the second alternative of the pattern matches \<^verbatim>\<open>+1\<close>;
  the rest \<^verbatim>\<open>d4\<close> matches nothing, and \<^verbatim>\<open>+3\<close> is the last match. So the expression parses
  to the single group \<^verbatim>\<open>2d6\<close> with the modifiers 1 and 3, and a plain roll returns one
  result, not two, and adds 4 to its subtotal.
\<close>

theorem roll_compound_plain:
  "roll ''2d6+1d4+3'' NONE g =
     Inr (DiceRollModel ''2d6+1d4+3''
            [\<lparr>rollNotation = ''2d6'',
              rolls = [1 + int (shd g) mod 6, 1 + int (shd (stl g)) mod 6],
              subtotal = Fin (1 + int (shd g) mod 6 + (1 + int (shd (stl g)) mod 6))\<rparr>]
            [Fin 1, Fin 3]
            (Fin (1 + int (shd g) mod 6 + (1 + int (shd (stl g)) mod 6) + 4))
            NONE None,
          stl (stl g))"
proof -
  let ?s = "1 + int (shd g) mod 6 + (1 + int (shd (stl g)) mod 6)"
  have "\<bar>1 + int (shd g) mod 6\<bar> \<le> 6" "\<bar>1 + int (shd (stl g)) mod 6\<bar> \<le> 6"
    by (rule die_value)+
  then have "\<bar>?s\<bar> \<le> 16" "\<bar>?s + 4\<bar> \<le> 16" by linarith+
  then have "\<bar>?s\<bar> \<le> 2 ^ 53" "\<bar>?s + 4\<bar> \<le> 2 ^ 53" by simp_all
  then have "toNumber ?s = Fin ?s" "toNumber (?s + 4) = Fin (?s + 4)"
    by (simp_all only: toNumber_exact)
  then show ?thesis
    using modifiers_1_3 by (simp add: roll_def parse_compound rollDiceGroup_2d6)
qed

text \<open>
  Claim C6 at its input. For the same reason \<^verbatim>\<open>2d6+1d4+3\<close> has one dice group for the
  service, and a roll with advantage returns a record instead of raising a validation
  error.
\<close>

theorem roll_compound_advantage:
  "\<exists>r g'. roll ''2d6+1d4+3'' ADVANTAGE g = Inr (r, g')
      \<and> map rollNotation (results r) = [''2d6''] \<and> rollModifiers r = [Fin 1, Fin 3]"
  by (simp add: roll_def parse_compound rollWithAdvantage_def rollDiceGroup_2d6 Let_def)

text \<open>
  Claim C2 at its input. The parser trims the ends of the expression and leaves the white
  space inside it. In \<^verbatim>\<open>2d6 + 1d4\<close> the plus sign is followed by a space and matches
  nothing, so \<^verbatim>\<open>1d4\<close> is a second dice group; in \<^verbatim>\<open>2d6+1d4\<close> the text \<^verbatim>\<open>+1\<close> is a modifier
  and there is one dice group. Likewise \<^verbatim>\<open>1d20 + 3\<close> has no modifier and \<^verbatim>\<open>1d20+3\<close> has
  the modifier 3.
\<close>

theorem parse_spaced_compound_differs:
  "parse ''2d6 + 1d4'' =
     Inr \<lparr>original = ''2d6 + 1d4'',
          diceGroups = [\<lparr>count = 2, sides = 6\<rparr>, \<lparr>count = 1, sides = 4\<rparr>],
          modifiers = [], isValid = True, validationErrors = []\<rparr>
   \<and> parse ''2d6+1d4'' =
     Inr \<lparr>original = ''2d6+1d4'', diceGroups = [\<lparr>count = 2, sides = 6\<rparr>],
          modifiers = [Fin 1], isValid = True, validationErrors = []\<rparr>
   \<and> parse ''1d20 + 3'' =
     Inr \<lparr>original = ''1d20 + 3'', diceGroups = [\<lparr>count = 1, sides = 20\<rparr>],
          modifiers = [], isValid = True, validationErrors = []\<rparr>
   \<and> parse ''1d20+3'' =
     Inr \<lparr>original = ''1d20+3'', diceGroups = [\<lparr>count = 1, sides = 20\<rparr>],
          modifiers = [Fin 3], isValid = True, validationErrors = []\<rparr>"
  by code_simp

subsection \<open>Letter case and surrounding white space\<close>

lemma isWhitespace_toLowerCaseChar: "isWhitespace (toLowerCaseChar c) = isWhitespace c"
proof -
  have "(of_char c :: nat) < 256" by (cases c) simp
  then show ?thesis
    by (auto simp: isWhitespace_def toLowerCaseChar_def Let_def)
qed

lemma trim_toLowerCase: "trim (toLowerCase s) = toLowerCase (trim s)"
proof -
  have eq: "isWhitespace \<circ> toLowerCaseChar = isWhitespace"
    by (rule ext) (simp add: isWhitespace_toLowerCaseChar)
  show ?thesis
    by (simp add: trim_def toLowerCase_def dropWhile_map rev_map eq)
qed

lemma dropWhile_all: "\<forall>c\<in>set xs. P c \<Longrightarrow> dropWhile P xs = []"
  by simp

lemma trim_surround:
  assumes "\<forall>c\<in>set pre. isWhitespace c" and "\<forall>c\<in>set post. isWhitespace c"
  shows "trim (pre @ x @ post) = trim x"
proof -
  have a: "dropWhile isWhitespace (pre @ x @ post) = dropWhile isWhitespace (x @ post)"
    using assms(1) by (intro dropWhile_append2) simp
  show ?thesis
  proof (cases "\<forall>c\<in>set x. isWhitespace c")
    case True
    with assms(2) have "\<forall>c\<in>set (x @ post). isWhitespace c" by auto
    then have b: "dropWhile isWhitespace (x @ post) = []" by (rule dropWhile_all)
    from True have c: "dropWhile isWhitespace x = []" by (rule dropWhile_all)
    show ?thesis unfolding trim_def a b c by (rule refl)
  next
    case False
    then have "dropWhile isWhitespace (x @ post) = dropWhile isWhitespace x @ post"
      by (auto simp: dropWhile_append1)
    moreover have
      "dropWhile isWhitespace (rev post @ rev (dropWhile isWhitespace x))
         = dropWhile isWhitespace (rev (dropWhile isWhitespace x))"
      using assms(2) by (intro dropWhile_append2) simp
    ultimately show ?thesis unfolding trim_def a by simp
  qed
qed

lemma structureOf_parse_normalized:
  assumes "toLowerCase (trim e1) = toLowerCase (trim e2)"
  shows "structureOf (parse e1) = structureOf (parse e2)"
  using assms
  by (auto simp: parse_def Let_def structureOf_def createInvalid_def
           split: sum.splits prod.splits)

text \<open>
  Claim C9. Parsing is invariant under letter case and surrounding white space: when
  \<open>s'\<close> equals \<open>s\<close> up to the case of its letters, and \<open>pre\<close> and \<open>post\<close> are white space,
  the parse of \<open>pre @ s' @ post\<close> and the parse of \<open>s\<close> have the same dice groups, the same
  modifiers, the same validity and the same errors (or raise the same error); only
  \<open>original\<close> differs.
\<close>

theorem parse_case_whitespace_invariant:
  assumes "\<forall>c\<in>set pre. isWhitespace c" and "\<forall>c\<in>set post. isWhitespace c"
    and "toLowerCase s' = toLowerCase s"
  shows "structureOf (parse (pre @ s' @ post)) = structureOf (parse s)"
proof -
  have "toLowerCase (trim (pre @ s' @ post)) = toLowerCase (trim s')"
    using assms(1,2) by (simp add: trim_surround)
  also have "\<dots> = trim (toLowerCase s)"
    using assms(3) by (simp add: trim_toLowerCase [symmetric])
  also have "\<dots> = toLowerCase (trim s)"
    by (rule trim_toLowerCase)
  finally show ?thesis by (rule structureOf_parse_normalized)
qed

text \<open>
  The three expressions of the claim, \<^verbatim>\<open>2d6\<close>, \<^verbatim>\<open>2D6\<close> and \<^verbatim>\<open>2d6\<close> between two spaces:
  the same structure, and each its own \<open>original\<close>.
\<close>

theorem parse_case_whitespace_invariant_witness:
  "structureOf (parse ''2D6'') = structureOf (parse ''2d6'')
   \<and> structureOf (parse '' 2d6 '') = structureOf (parse ''2d6'')
   \<and> structureOf (parse ''2d6'') = Inr ([\<lparr>count = 2, sides = 6\<rparr>], [], True, [])
   \<and> original (projr (parse ''2d6'')) = ''2d6''
   \<and> original (projr (parse ''2D6'')) = ''2D6''
   \<and> original (projr (parse '' 2d6 '')) = '' 2d6 ''"
proof -
  have lc: "toLowerCase ''2D6'' = toLowerCase ''2d6''" by code_simp
  have ws: "\<forall>c\<in>set '' ''. isWhitespace c" by (simp add: isWhitespace_def)
  have p: "parse ''2d6'' =
     Inr \<lparr>original = ''2d6'', diceGroups = [\<lparr>count = 2, sides = 6\<rparr>], modifiers = [],
          isValid = True, validationErrors = []\<rparr>"
    "parse ''2D6'' =
     Inr \<lparr>original = ''2D6'', diceGroups = [\<lparr>count = 2, sides = 6\<rparr>], modifiers = [],
          isValid = True, validationErrors = []\<rparr>"
    "parse '' 2d6 '' =
     Inr \<lparr>original = '' 2d6 '', diceGroups = [\<lparr>count = 2, sides = 6\<rparr>], modifiers = [],
          isValid = True, validationErrors = []\<rparr>"
    by code_simp+
  from parse_case_whitespace_invariant [of "[]" "[]" "''2D6''" "''2d6''"]
       parse_case_whitespace_invariant [OF ws ws, of "''2d6''" "''2d6''"] lc p
  show ?thesis by (simp add: structureOf_def)
qed

subsection \<open>Resource limits\<close>

lemma parseStep_exceeds:
  assumes "exceedsLimits m"
  shows "parseStep m st = Inl (ResourceLimitError (limitMessage m))"
proof -
  obtain gs ms es h where st: "st = (gs, ms, es, h)" by (cases st)
  have ts: "toString MAX_DICE = ''1000''" "toString MAX_SIDES = ''10000''"
    by (simp_all add: MAX_DICE_def MAX_SIDES_def toString_def digitsOf.simps)
  from assms show ?thesis
    unfolding st by (auto simp: parseStep_def exceedsLimits_def limitMessage_def Let_def ts)
qed

lemma parseStep_within:
  assumes "\<not> exceedsLimits m"
  shows "\<exists>st'. parseStep m st = Inr st'"
proof -
  obtain gs ms es h where st: "st = (gs, ms, es, h)" by (cases st)
  from assms show ?thesis
    unfolding st by (auto simp: parseStep_def exceedsLimits_def Let_def)
qed

lemma runSteps_first_exceeding:
  assumes "\<forall>x\<in>set pre. \<not> exceedsLimits x" and "exceedsLimits m"
  shows "runSteps (pre @ m # post) st = Inl (ResourceLimitError (limitMessage m))"
  using assms(1)
proof (induction pre arbitrary: st)
  case Nil
  from parseStep_exceeds [OF assms(2)] show ?case by simp
next
  case (Cons x pre)
  from Cons.prems have "\<not> exceedsLimits x" by simp
  from parseStep_within [OF this] obtain st' where "parseStep x st = Inr st'" by blast
  moreover from Cons.prems have "\<forall>x\<in>set pre. \<not> exceedsLimits x" by simp
  ultimately show ?case using Cons.IH by simp
qed

lemma scan_Nil: "scan [] = []"
  by (subst scan.simps) simp

lemma parse_first_exceeding:
  assumes "scan (toLowerCase (trim expr)) = pre @ m # post"
    and "\<forall>x\<in>set pre. \<not> exceedsLimits x" and "exceedsLimits m"
  shows "parse expr = Inl (ResourceLimitError (limitMessage m))"
proof -
  from assms(1) have "toLowerCase (trim expr) \<noteq> []"
    by (auto simp: scan_Nil)
  then show ?thesis
    using runSteps_first_exceeding [OF assms(2,3)] assms(1)
    by (simp add: parse_def parseLoop_runSteps)
qed

text \<open>
  For the tokens that the scan meets, the limits are enforced at once: at the first
  dice-group match over a limit \<open>parse\<close> raises a \<open>ResourceLimitError\<close>, \<open>roll\<close> passes it
  on, and the outcome does not depend on the matches that follow.
\<close>

lemma scan_limit_immediate:
  assumes "m \<in> set (scan (toLowerCase (trim expr)))" and "exceedsLimits m"
  shows "\<exists>pre m' post.
           scan (toLowerCase (trim expr)) = pre @ m' # post
           \<and> (\<forall>x\<in>set pre. \<not> exceedsLimits x) \<and> exceedsLimits m'
           \<and> parse expr = Inl (ResourceLimitError (limitMessage m'))
           \<and> (\<forall>mode g. roll expr mode g = Inl (ResourceLimitError (limitMessage m')))
           \<and> (\<forall>expr' post'. scan (toLowerCase (trim expr')) = pre @ m' # post'
                 \<longrightarrow> parse expr' = parse expr)"
proof -
  from assms have "\<exists>x\<in>set (scan (toLowerCase (trim expr))). exceedsLimits x" by blast
  from split_list_first_prop [OF this]
  obtain pre m' post where sp: "scan (toLowerCase (trim expr)) = pre @ m' # post"
    "exceedsLimits m'" "\<forall>x\<in>set pre. \<not> exceedsLimits x"
    by blast
  from parse_first_exceeding [OF sp(1,3,2)]
  have p: "parse expr = Inl (ResourceLimitError (limitMessage m'))" .
  then have r: "\<forall>mode g. roll expr mode g = Inl (ResourceLimitError (limitMessage m'))"
    by (simp add: roll_def)
  have "\<forall>expr' post'. scan (toLowerCase (trim expr')) = pre @ m' # post'
          \<longrightarrow> parse expr' = parse expr"
    using parse_first_exceeding [OF _ sp(3,2)] p by simp
  with sp p r show ?thesis by blast
qed

text \<open>
  Claim C7 at its input. The expression \<^verbatim>\<open>1d6+2000d6\<close> contains the dice group \<^verbatim>\<open>2000d6\<close>,
  whose count exceeds the limit of 1000. The search that follows the match \<^verbatim>\<open>1d6\<close> starts
  at the plus sign, where the second alternative of the pattern matches \<^verbatim>\<open>+2000\<close>, and
  the rest \<^verbatim>\<open>d6\<close> matches nothing: the scan never meets the token, no error is raised, and
  the expression is valid with the modifier 2000. On its own the same token raises the
  error.
\<close>

theorem parse_limit_missed_after_sign:
  "parse ''1d6+2000d6'' =
     Inr \<lparr>original = ''1d6+2000d6'', diceGroups = [\<lparr>count = 1, sides = 6\<rparr>],
          modifiers = [Fin 2000], isValid = True, validationErrors = []\<rparr>
   \<and> parse ''2000d6'' = Inl (ResourceLimitError ''Dice count exceeds maximum of 1000'')"
  by code_simp

subsection \<open>Unmatched characters\<close>

lemma isDigit_cases:
  "isDigit c \<longleftrightarrow> c = CHR ''0'' \<or> c = CHR ''1'' \<or> c = CHR ''2'' \<or> c = CHR ''3'' \<or> c = CHR ''4''
     \<or> c = CHR ''5'' \<or> c = CHR ''6'' \<or> c = CHR ''7'' \<or> c = CHR ''8'' \<or> c = CHR ''9''"
  by (auto simp: isDigit_def)

lemma toLowerCaseChar_letters:
  "toLowerCaseChar CHR ''D'' = CHR ''d''" "toLowerCaseChar CHR ''d'' = CHR ''d''"
  "toLowerCaseChar CHR ''+'' = CHR ''+''" "toLowerCaseChar CHR ''-'' = CHR ''-''"
  by code_simp+

lemma isDigit_toLowerCaseChar: "isDigit c \<Longrightarrow> toLowerCaseChar c = c"
  by (auto simp: isDigit_cases toLowerCaseChar_def)

lemma isDigit_not_whitespace: "isDigit c \<Longrightarrow> \<not> isWhitespace c"
  by (auto simp: isDigit_cases isWhitespace_def)

lemma toLowerCase_digits: "\<forall>x\<in>set ds. isDigit x \<Longrightarrow> toLowerCase ds = ds"
  by (induction ds) (simp_all add: toLowerCase_def isDigit_toLowerCaseChar)

lemma isDiceToken_toLowerCase: "isDiceToken w \<Longrightarrow> isDiceToken (toLowerCase w)"
proof -
  assume "isDiceToken w"
  then obtain c d sd where w: "w = c @ d # sd" "c \<noteq> []" "sd \<noteq> []"
    "\<forall>x\<in>set c. isDigit x" "\<forall>x\<in>set sd. isDigit x" "d = CHR ''d'' \<or> d = CHR ''D''"
    unfolding isDiceToken_def by blast
  from w(6) have "toLowerCaseChar d = CHR ''d''"
    by (auto simp: toLowerCaseChar_letters)
  with w have "toLowerCase w = c @ CHR ''d'' # sd"
    using toLowerCase_digits [of c] toLowerCase_digits [of sd]
    by (simp add: toLowerCase_def)
  with w(2-5) show ?thesis unfolding isDiceToken_def by blast
qed

lemma isModifierToken_toLowerCase: "isModifierToken w \<Longrightarrow> toLowerCase w = w"
proof -
  assume "isModifierToken w"
  then obtain sg ds where w: "w = sg # ds" "sg = CHR ''+'' \<or> sg = CHR ''-''"
    "\<forall>x\<in>set ds. isDigit x"
    unfolding isModifierToken_def by blast
  from w(2) have "toLowerCaseChar sg = sg"
    by (auto simp: toLowerCaseChar_letters)
  with w show ?thesis
    using toLowerCase_digits [of ds] by (simp add: toLowerCase_def)
qed

lemma matchDice_token: "isDiceToken w \<Longrightarrow> matchDice (w @ rest) \<noteq> None"
proof -
  assume "isDiceToken w"
  then obtain c d sd where w: "w = c @ d # sd" "c \<noteq> []" "sd \<noteq> []"
    "\<forall>x\<in>set c. isDigit x" "\<forall>x\<in>set sd. isDigit x" "d = CHR ''d'' \<or> d = CHR ''D''"
    unfolding isDiceToken_def by blast
  from w(6) have nd: "\<not> isDigit d" by (auto simp: isDigit_def)
  have t1: "takeWhile isDigit (w @ rest) = c"
    using w(1,4) nd by (simp add: takeWhile_tail)
  have d1: "dropWhile isDigit (w @ rest) = d # sd @ rest"
    using w(1,4) nd by (simp add: dropWhile_append2)
  obtain x sd' where sd: "sd = x # sd'" using w(3) by (cases sd) auto
  with w(5) have "isDigit x" by simp
  then have t2: "takeWhile isDigit (sd @ rest) \<noteq> []" using sd by simp
  from t1 d1 t2 w(2,6) show ?thesis
    by (auto simp: matchDice_def Let_def)
qed

lemma matchModifier_token: "isModifierToken w \<Longrightarrow> matchModifier (w @ rest) \<noteq> None"
proof -
  assume "isModifierToken w"
  then obtain sg ds where w: "w = sg # ds" "sg = CHR ''+'' \<or> sg = CHR ''-''" "ds \<noteq> []"
    "\<forall>x\<in>set ds. isDigit x"
    unfolding isModifierToken_def by blast
  obtain x ds' where ds: "ds = x # ds'" using w(3) by (cases ds) auto
  with w(4) have "isDigit x" by simp
  then have "takeWhile isDigit (ds @ rest) \<noteq> []" using ds by simp
  with w(1,2) show ?thesis
    by (auto simp: matchModifier_def Let_def)
qed

lemma matchHere_token:
  "isDiceToken w \<or> isModifierToken w \<Longrightarrow> matchHere (w @ rest) \<noteq> None"
  using matchDice_token [of w rest] matchModifier_token [of w rest]
  by (auto simp: matchHere_def split: option.splits)

lemma matchHere_Nil: "matchHere [] = None"
  by (simp add: matchHere_def matchDice_def matchModifier_def)

lemma exec_matchHere: "matchHere s \<noteq> None \<Longrightarrow> exec s \<noteq> None"
  by (cases s) (auto simp: matchHere_Nil split: option.splits)

lemma exec_append: "exec s \<noteq> None \<Longrightarrow> exec (pre @ s) \<noteq> None"
  by (induction pre) (auto split: option.splits)

lemma exec_token:
  assumes "isDiceToken w \<or> isModifierToken w"
  shows "exec (pre @ w @ post) \<noteq> None"
  using matchHere_token [OF assms, of post] by (intro exec_append exec_matchHere)

lemma token_ends:
  assumes "isDiceToken w \<or> isModifierToken w"
  shows "w \<noteq> [] \<and> \<not> isWhitespace (hd w) \<and> \<not> isWhitespace (last w)"
  using assms
proof
  assume "isDiceToken w"
  then obtain c d sd where w: "w = c @ d # sd" "c \<noteq> []" "sd \<noteq> []"
    "\<forall>x\<in>set c. isDigit x" "\<forall>x\<in>set sd. isDigit x"
    unfolding isDiceToken_def by blast
  from w(2,4) have "isDigit (hd c)" by simp
  moreover from w(3,5) have "isDigit (last sd)" by simp
  ultimately show ?thesis using w(1,2,3) by (simp add: isDigit_not_whitespace)
next
  assume "isModifierToken w"
  then obtain sg ds where w: "w = sg # ds" "sg = CHR ''+'' \<or> sg = CHR ''-''" "ds \<noteq> []"
    "\<forall>x\<in>set ds. isDigit x"
    unfolding isModifierToken_def by blast
  from w(3,4) have "isDigit (last ds)" by simp
  moreover from w(2) have "\<not> isWhitespace sg" by (auto simp: isWhitespace_def)
  ultimately show ?thesis using w(1,3) by (simp add: isDigit_not_whitespace)
qed

lemma dropWhile_keeps:
  assumes "w \<noteq> []" and "\<not> P (hd w)"
  shows "\<exists>a'. dropWhile P (a @ w @ b) = a' @ w @ b"
proof (induction a)
  case Nil
  from assms obtain x w' where "w = x # w'" "\<not> P x" by (cases w) auto
  then have "dropWhile P ([] @ w @ b) = [] @ w @ b" by simp
  then show ?case by blast
next
  case (Cons x a)
  show ?case
  proof (cases "P x")
    case True
    with Cons show ?thesis by simp
  next
    case False
    then have "dropWhile P ((x # a) @ w @ b) = (x # a) @ w @ b" by simp
    then show ?thesis by blast
  qed
qed

lemma trim_keeps:
  assumes "w \<noteq> []" and "\<not> isWhitespace (hd w)" and "\<not> isWhitespace (last w)"
  shows "\<exists>a' b'. trim (a @ w @ b) = a' @ w @ b'"
proof -
  from dropWhile_keeps [of w isWhitespace a b] assms(1,2)
  obtain a' where a': "dropWhile isWhitespace (a @ w @ b) = a' @ w @ b" by blast
  from assms(1,3) have "rev w \<noteq> []" "\<not> isWhitespace (hd (rev w))"
    by (simp_all add: hd_rev)
  from dropWhile_keeps [of "rev w" isWhitespace "rev b" "rev a'"] this
  obtain b' where b': "dropWhile isWhitespace (rev b @ rev w @ rev a') = b' @ rev w @ rev a'"
    by blast
  have "trim (a @ w @ b) = a' @ w @ rev b'"
    unfolding trim_def a' using b' by simp
  then show ?thesis by blast
qed

lemma containsToken_exec:
  assumes "containsToken expr"
  shows "exec (toLowerCase (trim expr)) \<noteq> None"
proof -
  from assms obtain pre w post where e: "expr = pre @ w @ post"
    and t: "isDiceToken w \<or> isModifierToken w"
    unfolding containsToken_def by blast
  from token_ends [OF t] trim_keeps [of w pre post]
  obtain a' b' where "trim expr = a' @ w @ b'" unfolding e by blast
  then have n: "toLowerCase (trim expr) = toLowerCase a' @ toLowerCase w @ toLowerCase b'"
    by (simp add: toLowerCase_def)
  from t have "isDiceToken (toLowerCase w) \<or> isModifierToken (toLowerCase w)"
    using isDiceToken_toLowerCase isModifierToken_toLowerCase by auto
  from exec_token [OF this] show ?thesis unfolding n .
qed

lemma containsToken_scan:
  assumes "containsToken expr"
  shows "scan (toLowerCase (trim expr)) \<noteq> []"
  using containsToken_exec [OF assms]
  by (subst scan.simps) (auto split: option.splits)

lemma structureOf_parse_scan:
  assumes "scan (toLowerCase (trim e1)) = scan (toLowerCase (trim e2))"
    and "scan (toLowerCase (trim e2)) \<noteq> []"
  shows "structureOf (parse e1) = structureOf (parse e2)"
proof -
  from assms have "toLowerCase (trim e1) \<noteq> []" "toLowerCase (trim e2) \<noteq> []"
    by (auto simp: scan_Nil)
  with assms(1) show ?thesis
    by (auto simp: parse_def Let_def structureOf_def createInvalid_def parseLoop_runSteps
             split: sum.splits prod.splits)
qed

lemma parseStep_flag: "parseStep m st = Inr (gs, ms, es, h) \<Longrightarrow> h"
  by (cases st) (auto simp: parseStep_def Let_def split: if_splits)

lemma runSteps_flag:
  "runSteps ms st = Inr (gs, mods, es, h) \<Longrightarrow> ms \<noteq> [] \<Longrightarrow> h"
proof (induction ms arbitrary: st)
  case Nil
  then show ?case by simp
next
  case (Cons m ms)
  from Cons.prems(1) obtain st1 where s1: "parseStep m st = Inr st1"
    and s2: "runSteps ms st1 = Inr (gs, mods, es, h)"
    by (auto split: sum.splits)
  show ?case
  proof (cases ms)
    case Nil
    with s1 s2 show ?thesis by (auto dest: parseStep_flag)
  next
    case (Cons a list)
    with Cons.IH [OF s2] show ?thesis by simp
  qed
qed

lemma parseStep_messages:
  assumes "parseStep m (gs, ms, es, h) = Inr (gs', ms', es', h')"
    and "\<forall>e\<in>set es. message e \<noteq> ''Invalid dice notation format''"
  shows "\<forall>e\<in>set es'. message e \<noteq> ''Invalid dice notation format''"
  using assms
  by (auto simp: parseStep_def Let_def split: if_splits)

lemma runSteps_messages:
  "runSteps ms st = Inr st' \<Longrightarrow>
   \<forall>e\<in>set (fst (snd (snd st))). message e \<noteq> ''Invalid dice notation format'' \<Longrightarrow>
   \<forall>e\<in>set (fst (snd (snd st'))). message e \<noteq> ''Invalid dice notation format''"
proof (induction ms arbitrary: st)
  case Nil
  then show ?case by simp
next
  case (Cons m ms)
  from Cons.prems(1) obtain st1 where s1: "parseStep m st = Inr st1"
    and s2: "runSteps ms st1 = Inr st'"
    by (auto split: sum.splits)
  obtain gs mods es h where st: "st = (gs, mods, es, h)" by (cases st)
  obtain gs1 mods1 es1 h1 where st1: "st1 = (gs1, mods1, es1, h1)" by (cases st1)
  from parseStep_messages [of m gs mods es h gs1 mods1 es1 h1] s1 st st1 Cons.prems(2)
  have "\<forall>e\<in>set (fst (snd (snd st1))). message e \<noteq> ''Invalid dice notation format''" by simp
  with Cons.IH [OF s2] show ?case .
qed

lemma parse_no_format_error:
  assumes "scan (toLowerCase (trim expr)) \<noteq> []" and "parse expr = Inr parsed"
  shows "\<forall>e\<in>set (validationErrors parsed). message e \<noteq> ''Invalid dice notation format''"
proof -
  from assms(1) have ne: "toLowerCase (trim expr) \<noteq> []" by (auto simp: scan_Nil)
  from assms(2) ne obtain gs mods es h where
    r: "runSteps (scan (toLowerCase (trim expr))) ([], [], [], False) = Inr (gs, mods, es, h)"
    by (auto simp: parse_def parseLoop_runSteps split: sum.splits prod.splits)
  from runSteps_flag [OF r assms(1)] have h: h .
  from runSteps_messages [OF r]
  have es: "\<forall>e\<in>set es. message e \<noteq> ''Invalid dice notation format''" by simp
  from assms(2) ne r h es show ?thesis
    by (auto simp: parse_def parseLoop_runSteps createInvalid_def Let_def split: if_splits)
qed

text \<open>
  Claim C10. When some substring of the expression has the shape of a dice-group token
  (digits, the letter \<open>d\<close> in either case, digits) or of a modifier token (a sign, digits),
  the characters that are part of no match are ignored: the outcome of \<open>parse\<close> is the
  same for every expression with the same sequence of matches, up to \<open>original\<close>, and no
  error about the notation format is recorded.
\<close>

theorem parse_ignores_unmatched:
  assumes "containsToken expr"
  shows "(\<forall>expr'. scan (toLowerCase (trim expr')) = scan (toLowerCase (trim expr))
            \<longrightarrow> structureOf (parse expr') = structureOf (parse expr))
       \<and> (\<forall>parsed. parse expr = Inr parsed
            \<longrightarrow> (\<forall>e\<in>set (validationErrors parsed).
                   message e \<noteq> ''Invalid dice notation format''))"
proof -
  from containsToken_scan [OF assms] have ne: "scan (toLowerCase (trim expr)) \<noteq> []" .
  then show ?thesis
    using structureOf_parse_scan [OF _ ne] parse_no_format_error [OF ne] by blast
qed

text \<open>
  The expression \<^verbatim>\<open>2d6xyz\<close> is valid, with the single group \<^verbatim>\<open>2d6\<close> and no modifier, as
  \<^verbatim>\<open>2d6\<close> is.
\<close>

theorem parse_ignores_unmatched_witness:
  "containsToken ''2d6xyz''
   \<and> structureOf (parse ''2d6xyz'') = structureOf (parse ''2d6'')
   \<and> parse ''2d6xyz'' =
       Inr \<lparr>original = ''2d6xyz'', diceGroups = [\<lparr>count = 2, sides = 6\<rparr>], modifiers = [],
            isValid = True, validationErrors = []\<rparr>"
proof -
  have "isDiceToken ''2d6''"
    unfolding isDiceToken_def
    by (rule exI [of _ "''2''"], rule exI [of _ "CHR ''d''"], rule exI [of _ "''6''"])
       (simp add: isDigit_def)
  then have c: "containsToken ''2d6xyz''"
    unfolding containsToken_def
    by (intro exI [of _ "[]"] exI [of _ "''2d6''"] exI [of _ "''xyz''"]) simp
  have s: "scan (toLowerCase (trim ''2d6'')) = scan (toLowerCase (trim ''2d6xyz''))"
    by code_simp
  have p: "parse ''2d6xyz'' =
       Inr \<lparr>original = ''2d6xyz'', diceGroups = [\<lparr>count = 2, sides = 6\<rparr>], modifiers = [],
            isValid = True, validationErrors = []\<rparr>"
    by code_simp
  from parse_ignores_unmatched [OF c] s c p show ?thesis by simp
qed

subsection \<open>Validation errors of the roll service\<close>

lemma parseStep_error_kind: "parseStep m st = Inl e \<Longrightarrow> \<exists>msg. e = ResourceLimitError msg"
  by (cases st) (auto simp: parseStep_def Let_def split: if_splits)

lemma runSteps_error_kind: "runSteps ms st = Inl e \<Longrightarrow> \<exists>msg. e = ResourceLimitError msg"
  by (induction ms arbitrary: st) (auto split: sum.splits dest: parseStep_error_kind)

lemma parse_error_kind: "parse expr = Inl e \<Longrightarrow> \<exists>msg. e = ResourceLimitError msg"
  by (auto simp: parse_def Let_def parseLoop_runSteps
           split: if_splits sum.splits prod.splits dest: runSteps_error_kind)

lemma rollAll_ok:
  "\<forall>dg\<in>set dgs. inBounds dg \<Longrightarrow> \<exists>rs g'. rollAll dgs g = Inr (rs, g')"
proof (induction dgs arbitrary: g)
  case Nil
  then show ?case by simp
next
  case (Cons dg dgs)
  from Cons.prems have b: "inBounds dg" by simp
  from rollDiceGroup_ok [OF b, of g] obtain r g1 where r: "rollDiceGroup dg g = Inr (r, g1)"
    by blast
  from Cons.IH [of g1] Cons.prems obtain rs g2 where "rollAll dgs g1 = Inr (rs, g2)"
    by auto
  with r show ?case by simp
qed

text \<open>
  When \<open>roll\<close> raises a validation error: exactly when the parser returns an invalid
  expression, or a mode other than \<open>NONE\<close> meets a number of dice groups other than one.
  For an invalid expression the message joins all the messages of the parser.
\<close>

lemma roll_validation_error_iff:
  "(\<exists>msg. roll expr mode g = Inl (AppValidationError msg))
     \<longleftrightarrow> (\<exists>parsed. parse expr = Inr parsed
            \<and> (\<not> isValid parsed \<or> (mode \<noteq> NONE \<and> length (diceGroups parsed) \<noteq> 1)))"
proof (cases "parse expr")
  case (Inl e)
  with parse_error_kind [OF Inl] show ?thesis by (auto simp: roll_def)
next
  case (Inr parsed)
  show ?thesis
  proof (cases "\<not> isValid parsed \<or> (mode \<noteq> NONE \<and> length (diceGroups parsed) \<noteq> 1)")
    case True
    with Inr show ?thesis by (auto simp: roll_def)
  next
    case False
    then have v: "isValid parsed" and c: "mode = NONE \<or> length (diceGroups parsed) = 1"
      by auto
    have bounds: "\<forall>dg\<in>set (diceGroups parsed). inBounds dg"
      using parse_bounds [OF Inr] by blast
    have "\<exists>r g'. roll expr mode g = Inr (r, g')"
    proof (cases "mode = NONE")
      case True
      from rollAll_ok [OF bounds, of g] obtain rs g' where "rollAll (diceGroups parsed) g = Inr (rs, g')"
        by blast
      with Inr v True show ?thesis by (simp add: roll_def)
    next
      case False
      with c obtain dg where dg: "diceGroups parsed = [dg]"
        by (cases "diceGroups parsed") auto
      with bounds have "inBounds dg" by simp
      from rollWithAdvantage_ok [OF this, of g]
      obtain p a g2 where "rollWithAdvantage dg g = Inr ((p, a), g2)" by blast
      with Inr v False dg show ?thesis
        by (auto simp: roll_def Let_def split: prod.splits)
    qed
    with Inr False show ?thesis by auto
  qed
qed

lemma roll_invalid_messages:
  assumes "parse expr = Inr parsed" and "\<not> isValid parsed"
  shows "roll expr mode g =
           Inl (AppValidationError (join ''; '' (map message (validationErrors parsed))))"
  using assms by (simp add: roll_def)

subsection \<open>A sum of modifiers that is not a number\<close>












end
